theory Spec2Isabelle
  imports Main "HOL-Library.Word"
begin

section \<open>The downloader of cocos2d-x (network/CCDownloader.cpp)\<close>

text \<open>
  The downloader is modelled by the trace of what it does to its collaborators: the file
  system and the C library (directory creation, fopen, fwrite, fclose, remove, rename), the
  transfer engine (DownloaderImpl), the scheduler (performFunctionInCocosThread) and the
  three user handlers. Every function of the source becomes a function that returns the
  updated object together with the list of effects, in program order. The answers of the
  collaborators are parameters, collected in the record \<open>env\<close>.
\<close>

subsection \<open>Data\<close>

type_synonym thread_id = nat

text \<open>A pointer (FILE*, unsigned char*, void*): \<open>None\<close> is nullptr, \<open>Some a\<close> an address.\<close>

type_synonym pointer = "nat option"

type_synonym byte = "8 word"

text \<open>The members of Downloader::ErrorCode that the source file uses.\<close>

datatype ErrorCode = CREATE_FILE | NETWORK | CURL_MULTI_ERROR | CURL_EASY_ERROR | INVALID_URL

text \<open>
  Downloader::Error. prepareDownload builds an Error and assigns only its code, message and
  customId: a native code that the source never assigns is \<open>None\<close>.
\<close>

record Error =
  code :: ErrorCode
  curle_code :: "int option"
  curlm_code :: "int option"
  message :: string
  err_customId :: string

text \<open>
  Downloader::ProgressData. The type of the two counters is declared in a header; the
  source compares them with \<open>==\<close>, \<open>!=\<close>, \<open><\<close> and with 0 only, so the counter type is
  the parameter \<open>'n\<close>.
\<close>

record 'n ProgressData =
  customId :: string
  url :: string
  path :: string
  name :: string
  downloaded :: 'n
  totalToDownload :: 'n

record DownloadUnit =
  srcUrl :: string
  storagePath :: string
  unit_customId :: string
  resumeDownload :: bool
  fp :: pointer

text \<open>DownloadUnits, a map from key to unit, as the list of its entries in iteration order.\<close>

type_synonym DownloadUnits = "(string \<times> DownloadUnit) list"

text \<open>
  The members of Downloader that the transfers read or write. A handler is a
  std::function: \<open>True\<close> when it is not nullptr.
\<close>

record 'n Downloader =
  onError :: bool
  onProgress :: bool
  onSuccess :: bool
  supportResuming :: bool
  progDatas :: "'n ProgressData list"

text \<open>An invocation of one of the three user handlers, with its arguments.\<close>

datatype 'n callback =
    OnError Error
  | OnProgress 'n 'n string string
  | OnSuccess string string string

text \<open>
  The closures handed to Scheduler::performFunctionInCocosThread, one constructor for each
  lambda of the source, with the values it captures.
\<close>

datatype 'n closure =
    NotifyErrorFn Error
  | BufferFinishedFn "'n ProgressData"
  | FileFinishedFn "'n ProgressData"
  | BatchFinishedFn string
  | ProgressFinishedFn 'n 'n "'n ProgressData"
  | ProgressInProgressFn 'n 'n "'n ProgressData"
  | ProgressFn 'n 'n "'n ProgressData"

datatype 'n effect =
    CreateDirectory string
  | Fopen string string
  | Fwrite pointer "byte list"
  | BufferWrite pointer "byte list"
  | Fclose pointer
  | RemoveFile string
  | RenameFile string string string
  | EngineInit string
  | PerformDownload DownloadUnit
  | PerformBatchDownload DownloadUnits
  | Invoke thread_id "'n callback"
  | PerformFunctionInCocosThread "'n closure"
  | ThreadSpawn thread_id

text \<open>
  A trace lists the calls in program order. \<open>Fwrite f bytes\<close> and \<open>Fclose f\<close> are the
  calls fwrite and fclose on the FILE* \<open>f\<close>; on a null pointer C leaves both undefined
  (fileWriteFunc asserts that its pointer is not null), and a run of the program does not
  go on from there in any defined way. \<open>BufferWrite p bytes\<close> is the call of
  bufferWriteFunc on a unit whose fp is \<open>p\<close>, with these bytes: the callback casts
  \<open>p\<close> to a StreamData*.
\<close>

fun undefined_call :: "'n effect \<Rightarrow> bool" where
  "undefined_call (Fwrite f bytes) = (f = None)"
| "undefined_call (Fclose f) = (f = None)"
| "undefined_call x = False"

text \<open>The run that a trace stands for: the trace up to its first undefined call.\<close>

fun defined_run :: "'n effect list \<Rightarrow> 'n effect list" where
  "defined_run [] = []"
| "defined_run (x # xs) = (if undefined_call x then [x] else x # defined_run xs)"

text \<open>What the transfer engine does during performDownload: the callbacks it makes.\<close>

datatype 'n engine_event =
    WriteData "byte list"
  | Progress 'n 'n

text \<open>
  What the engine does during performBatchDownload. A write names the unit by its position
  in the group, a progress report names the tracker by its position in the tracker list
  and the thread the engine reports on, an error goes to the error callback.
\<close>

datatype 'n batch_event =
    BWrite nat "byte list"
  | BProgress thread_id nat 'n 'n
  | BError string int string

text \<open>
  The collaborators: Director (the id of the cocos thread), FileUtils, the C library,
  the platform constant FOPEN_MAX and the engine DownloaderImpl.
\<close>

record 'n env =
  cocosThread :: thread_id
  isDirectoryExist :: "string \<Rightarrow> bool"
  isFileExist :: "string \<Rightarrow> bool"
  getSuitableFOpen :: "string \<Rightarrow> string"
  fopen :: "string \<Rightarrow> string \<Rightarrow> pointer"
  errno :: int
  FOPEN_MAX :: nat
  supportsResume :: bool
  getStrError :: string
  performDownload :: "DownloadUnit \<Rightarrow> 'n ProgressData \<Rightarrow> 'n engine_event list \<times> int"
  performBatchDownload :: "DownloadUnits \<Rightarrow> 'n ProgressData list \<Rightarrow> 'n batch_event list"

definition TEMP_EXT :: string where
  "TEMP_EXT = ''.temp''"

definition CURLE_OK :: int where
  "CURLE_OK = 0"

definition CURLM_OK :: int where
  "CURLM_OK = 0"

subsection \<open>Strings\<close>

text \<open>std::string::find_last_of: the position of the last character that is in \<open>cs\<close>.\<close>

fun find_last_of :: "string \<Rightarrow> string \<Rightarrow> nat option" where
  "find_last_of [] cs = None"
| "find_last_of (x # xs) cs =
     (case find_last_of xs cs of
        Some i \<Rightarrow> Some (Suc i)
      | None \<Rightarrow> (if x \<in> set cs then Some 0 else None))"

text \<open>The two separators of the source, a slash and a backslash.\<close>

definition separators :: string where
  "separators = [CHR ''/'', CHR 0x5C]"

text \<open>The decimal digits of an int, as the conversion \<open>%d\<close> prints them.\<close>

function string_of_nat :: "nat \<Rightarrow> string" where
  "string_of_nat n =
     (if n < 10 then [char_of (48 + n)]
      else string_of_nat (n div 10) @ [char_of (48 + n mod 10)])"
  by pat_completeness auto
termination
  by (relation "measure id") auto

definition string_of_int :: "int \<Rightarrow> string" where
  "string_of_int i = (if i < 0 then CHR ''-'' # string_of_nat (nat (- i)) else string_of_nat (nat i))"

subsection \<open>Notification\<close>

definition reportDownloadFinished :: "'n Downloader \<Rightarrow> string \<Rightarrow> string \<Rightarrow> string \<Rightarrow> 'n callback list" where
  "reportDownloadFinished d u p customid = (if onSuccess d then [OnSuccess u p customid] else [])"

definition reportProgressFinished :: "'n Downloader \<Rightarrow> 'n \<Rightarrow> 'n \<Rightarrow> 'n ProgressData \<Rightarrow> 'n callback list" where
  "reportProgressFinished d tot now data =
     (if onProgress d then [OnProgress tot now (url data) (customId data)] else [])
     @ reportDownloadFinished d (url data) (path data @ name data) (customId data)"

definition reportProgressInProgress :: "'n Downloader \<Rightarrow> 'n \<Rightarrow> 'n \<Rightarrow> 'n ProgressData \<Rightarrow> 'n callback list" where
  "reportProgressInProgress d tot now data =
     (if onProgress d then [OnProgress tot now (url data) (customId data)] else [])"

text \<open>
  What a scheduled closure does when the cocos thread runs it: \<open>d\<close> is the downloader at
  that moment and \<open>expired\<close> says whether the weak pointer to it has expired.
\<close>

fun run_closure :: "'n Downloader \<Rightarrow> bool \<Rightarrow> 'n closure \<Rightarrow> 'n callback list" where
  "run_closure d expired (NotifyErrorFn err) =
     (if \<not> expired then (if onError d then [OnError err] else []) else [])"
| "run_closure d expired (BufferFinishedFn data) =
     (if \<not> expired then reportDownloadFinished d (url data) [] (customId data) else [])"
| "run_closure d expired (FileFinishedFn data) =
     (if \<not> expired then reportDownloadFinished d (url data) (path data @ name data) (customId data) else [])"
| "run_closure d expired (BatchFinishedFn batchId) =
     (if \<not> expired then (if onSuccess d then [OnSuccess [] [] batchId] else []) else [])"
| "run_closure d expired (ProgressFinishedFn tot now data) =
     (if \<not> expired then reportProgressFinished d tot now data else [])"
| "run_closure d expired (ProgressInProgressFn tot now data) =
     (if \<not> expired then reportProgressInProgress d tot now data else [])"
| "run_closure d expired (ProgressFn tot now data) =
     (if \<not> expired then (if onProgress d then [OnProgress tot now (url data) (customId data)] else []) else [])"

text \<open>The handler calls that a trace makes itself, each with the thread that makes it.\<close>

fun inline_calls :: "'n effect list \<Rightarrow> (thread_id \<times> 'n callback) list" where
  "inline_calls [] = []"
| "inline_calls (Invoke t cb # es) = (t, cb) # inline_calls es"
| "inline_calls (x # es) = inline_calls es"

text \<open>The closures that a trace hands to the scheduler, in the order it queues them.\<close>

fun queued :: "'n effect list \<Rightarrow> 'n closure list" where
  "queued [] = []"
| "queued (PerformFunctionInCocosThread c # es) = c # queued es"
| "queued (x # es) = queued es"

text \<open>
  The handler invocations of a trace once the cocos thread has run the closures that the
  trace has queued, each with the thread it runs on. The inline calls come first, in the
  order the trace makes them, on the thread that makes them; then the queued closures, in
  the order they were queued, on the cocos thread: the cocos thread runs its queue between
  frames, so after a function that it executes itself has returned. The calls of two
  different threads are not ordered in time by this list. A run that ends in an undefined
  call (see \<open>defined_run\<close>) may end before its queue is run: the calls that it has
  certainly made are \<open>inline_calls\<close> of the run.
\<close>

definition invocations :: "thread_id \<Rightarrow> 'n Downloader \<Rightarrow> bool \<Rightarrow> 'n effect list \<Rightarrow> (thread_id \<times> 'n callback) list" where
  "invocations cocos d expired ef =
     inline_calls ef @ map (Pair cocos) (concat (map (run_closure d expired) (queued ef)))"

text \<open>The five-argument notifyError and its two overloads: all three schedule a closure.\<close>

definition notifyError :: "ErrorCode \<Rightarrow> string \<Rightarrow> string \<Rightarrow> int \<Rightarrow> int \<Rightarrow> 'n effect list" where
  "notifyError c msg customid curle curlm =
     [PerformFunctionInCocosThread (NotifyErrorFn
        \<lparr>code = c, curle_code = Some curle, curlm_code = Some curlm, message = msg, err_customId = customid\<rparr>)]"

definition notifyError_multi :: "string \<Rightarrow> int \<Rightarrow> string \<Rightarrow> 'n effect list" where
  "notifyError_multi msg curlm customid = notifyError CURL_MULTI_ERROR msg customid CURLE_OK curlm"

definition notifyError_easy :: "string \<Rightarrow> string \<Rightarrow> int \<Rightarrow> 'n effect list" where
  "notifyError_easy msg customid curle = notifyError CURL_EASY_ERROR msg customid curle CURLM_OK"

subsection \<open>Preparing a destination\<close>

text \<open>
  prepareDownload, on the thread \<open>self\<close>: the effects, the pointer stored through \<open>fp\<close>
  and the tracker. StringUtils::format with \<open>%s\<close> and \<open>%d\<close> is concatenation.
\<close>

definition prepareDownload ::
  "'n::zero env \<Rightarrow> 'n Downloader \<Rightarrow> thread_id \<Rightarrow> string \<Rightarrow> string \<Rightarrow> string \<Rightarrow> bool \<Rightarrow> 'n ProgressData
     \<Rightarrow> 'n effect list \<times> pointer \<times> 'n ProgressData" where
  "prepareDownload e d self src storage customid resume pData0 =
     (let pData = pData0\<lparr>customId := customid, url := src, downloaded := 0, totalToDownload := 0\<rparr>
      in case find_last_of storage separators of
           None \<Rightarrow>
             ((if onError d
               then [Invoke self (OnError \<lparr>code = INVALID_URL, curle_code = None, curlm_code = None,
                       message = ''Invalid url or filename not exist error: '' @ src,
                       err_customId = customid\<rparr>)]
               else []),
              None, pData)
         | Some found \<Rightarrow>
             (let pData1 = pData\<lparr>name := drop (found + 1) storage, path := take (found + 1) storage\<rparr>;
                  mkdir = (if \<not> isDirectoryExist e (path pData1) then [CreateDirectory (path pData1)] else []);
                  outFileName = storage @ TEMP_EXT;
                  mode = (if supportResuming d \<and> resume \<and> isFileExist e outFileName then ''ab'' else ''wb'');
                  localFP = fopen e (getSuitableFOpen e outFileName) mode;
                  report = (if localFP = None
                            then (if onError d
                                  then [Invoke self (OnError \<lparr>code = CREATE_FILE, curle_code = None, curlm_code = None,
                                          message = ''Can not create file '' @ outFileName @ '': errno '' @ string_of_int (errno e),
                                          err_customId = customid\<rparr>)]
                                  else [])
                            else [])
              in (mkdir @ [Fopen (getSuitableFOpen e outFileName) mode] @ report, localFP, pData1)))"

text \<open>A default-constructed ProgressData; prepareDownload overwrites both counters.\<close>

definition ProgressData_new :: "'n::zero ProgressData" where
  "ProgressData_new = \<lparr>customId = [], url = [], path = [], name = [], downloaded = 0, totalToDownload = 0\<rparr>"

subsection \<open>The callbacks given to the engine\<close>

text \<open>
  fileWriteFunc: fwrite on the unit's fp. The source asserts that the pointer is not null;
  with a null pointer the call is recorded all the same and is an \<open>undefined_call\<close>.
\<close>

definition fileWriteFunc :: "pointer \<Rightarrow> byte list \<Rightarrow> 'n effect list" where
  "fileWriteFunc f bytes = [Fwrite f bytes]"

text \<open>downloadProgressFunc: the tracker after the call and the effects.\<close>

definition downloadProgressFunc :: "'n::zero ProgressData \<Rightarrow> 'n \<Rightarrow> 'n \<Rightarrow> 'n ProgressData \<times> 'n effect list" where
  "downloadProgressFunc p tot now =
     (let p1 = (if totalToDownload p = 0 then p\<lparr>totalToDownload := tot\<rparr> else p)
      in if downloaded p1 \<noteq> now
         then (let p2 = p1\<lparr>downloaded := now\<rparr>
               in (p2, [PerformFunctionInCocosThread (ProgressFn tot now p2)]))
         else (p1, []))"

text \<open>batchDownloadProgressFunc, called by the engine on the thread \<open>t\<close>.\<close>

definition batchDownloadProgressFunc ::
  "'n::zero env \<Rightarrow> 'n Downloader \<Rightarrow> thread_id \<Rightarrow> 'n ProgressData \<Rightarrow> 'n \<Rightarrow> 'n \<Rightarrow> 'n ProgressData \<times> 'n effect list" where
  "batchDownloadProgressFunc e d t p tot now =
     (let p1 = (if totalToDownload p = 0 then p\<lparr>totalToDownload := tot\<rparr> else p)
      in if downloaded p1 \<noteq> now
         then (let p2 = p1\<lparr>downloaded := now\<rparr>
               in if now = tot
                  then (if t \<noteq> cocosThread e
                        then (p2, [PerformFunctionInCocosThread (ProgressFinishedFn tot now p2)])
                        else (p2, map (Invoke t) (reportProgressFinished d tot now p2)))
                  else (if t \<noteq> cocosThread e
                        then (p2, [PerformFunctionInCocosThread (ProgressInProgressFn tot now p2)])
                        else (p2, map (Invoke t) (reportProgressInProgress d tot now p2))))
         else (p1, []))"

text \<open>
  The callbacks of one performDownload, in the order the engine makes them: \<open>wr\<close> is the
  write callback bound for the transfer, the progress callback is downloadProgressFunc on
  the transfer's tracker.
\<close>

fun single_callbacks :: "(byte list \<Rightarrow> 'n effect list) \<Rightarrow> 'n::zero ProgressData \<Rightarrow> 'n engine_event list
    \<Rightarrow> 'n ProgressData \<times> 'n effect list" where
  "single_callbacks wr data [] = (data, [])"
| "single_callbacks wr data (WriteData bytes # evs) =
     (let (data', ef) = single_callbacks wr data evs in (data', wr bytes @ ef))"
| "single_callbacks wr data (Progress tot now # evs) =
     (let (data1, ef1) = downloadProgressFunc data tot now;
          (data2, ef2) = single_callbacks wr data1 evs
      in (data2, ef1 @ ef2))"

subsection \<open>Single transfers\<close>

text \<open>
  downloadToBuffer up to the return of performDownload: the unit, the effects of the
  callbacks, the tracker after the last callback and the result code. The unit's fp is the
  caller's buffer itself. The local streamBuffer, which holds the buffer, its declared
  size and the offset 0, is built and not referred to again: neither the unit nor the
  engine gets the declared size. The write callback is bufferWriteFunc, called on this
  unit; the function is modelled on its own below, on a StreamData.
\<close>

definition buffer_transfer ::
  "'n::zero env \<Rightarrow> string \<Rightarrow> string \<Rightarrow> pointer \<Rightarrow> int
     \<Rightarrow> DownloadUnit \<times> 'n effect list \<times> 'n ProgressData \<times> int" where
  "buffer_transfer e src customid buf sz =
     (let unit = \<lparr>srcUrl = src, storagePath = [], unit_customId = customid, resumeDownload = False, fp = buf\<rparr>;
          data = ProgressData_new\<lparr>customId := customid, url := src, downloaded := 0, totalToDownload := 0\<rparr>;
          (evs, res) = performDownload e unit data;
          (data', cbs) = single_callbacks (\<lambda>bytes. [BufferWrite (fp unit) bytes]) data evs
      in (unit, cbs, data', res))"

text \<open>downloadToBuffer on the thread \<open>self\<close>. No member of the downloader is assigned.\<close>

definition downloadToBuffer ::
  "'n::zero env \<Rightarrow> 'n Downloader \<Rightarrow> thread_id \<Rightarrow> string \<Rightarrow> string \<Rightarrow> pointer \<Rightarrow> int
     \<Rightarrow> 'n Downloader \<times> 'n effect list" where
  "downloadToBuffer e d self src customid buf sz =
     (let (unit, cbs, data, res) = buffer_transfer e src customid buf sz
      in (d, [EngineInit src, PerformDownload unit] @ cbs @
             (if res \<noteq> 0
              then notifyError_easy (''Unable to download file to buffer: [curl error]'' @ getStrError e) customid res
              else (if self \<noteq> cocosThread e
                    then [PerformFunctionInCocosThread (BufferFinishedFn data)]
                    else map (Invoke self) (reportDownloadFinished d (url data) [] (customId data))))))"

text \<open>The thread that downloadToBufferAsync starts is \<open>t\<close>.\<close>

definition downloadToBufferAsync ::
  "'n::zero env \<Rightarrow> 'n Downloader \<Rightarrow> thread_id \<Rightarrow> string \<Rightarrow> pointer \<Rightarrow> int \<Rightarrow> string
     \<Rightarrow> 'n Downloader \<times> 'n effect list" where
  "downloadToBufferAsync e d t src buf sz customid =
     (if buf \<noteq> None
      then (let (d', ef) = downloadToBuffer e d t src customid buf sz in (d', ThreadSpawn t # ef))
      else (d, []))"

definition downloadToBufferSync ::
  "'n::zero env \<Rightarrow> 'n Downloader \<Rightarrow> thread_id \<Rightarrow> string \<Rightarrow> pointer \<Rightarrow> int \<Rightarrow> string
     \<Rightarrow> 'n Downloader \<times> 'n effect list" where
  "downloadToBufferSync e d self src buf sz customid =
     (if buf \<noteq> None then downloadToBuffer e d self src customid buf sz else (d, []))"

text \<open>
  downloadToFP up to the return of performDownload: the effects of the preparation, the
  unit, the effects of the callbacks, the tracker after the last callback and the result
  code.
\<close>

definition file_transfer ::
  "'n::zero env \<Rightarrow> 'n Downloader \<Rightarrow> thread_id \<Rightarrow> string \<Rightarrow> string \<Rightarrow> string
     \<Rightarrow> 'n effect list \<times> DownloadUnit \<times> 'n effect list \<times> 'n ProgressData \<times> int" where
  "file_transfer e d self src customid storage =
     (let (prep, f, data) = prepareDownload e d self src storage customid False ProgressData_new;
          unit = \<lparr>srcUrl = src, storagePath = storage, unit_customId = customid, resumeDownload = False, fp = f\<rparr>;
          (evs, res) = performDownload e unit data;
          (data', cbs) = single_callbacks (fileWriteFunc (fp unit)) data evs
      in (prep, unit, cbs, data', res))"

text \<open>
  downloadToFP on the thread \<open>self\<close>. No member of the downloader is assigned. The
  function does not test the pointer that prepareDownload leaves: after a failed
  preparation it is null, fclose is called on it, which is undefined, and the trace ends
  with that call.
\<close>

definition downloadToFP ::
  "'n::zero env \<Rightarrow> 'n Downloader \<Rightarrow> thread_id \<Rightarrow> string \<Rightarrow> string \<Rightarrow> string
     \<Rightarrow> 'n Downloader \<times> 'n effect list" where
  "downloadToFP e d self src customid storage =
     (let (prep, unit, cbs, data, res) = file_transfer e d self src customid storage
      in (d, prep @ [EngineInit src, PerformDownload unit] @ cbs @
             (if res \<noteq> 0
              then [RemoveFile (path data @ name data @ TEMP_EXT)]
                   @ notifyError_easy (''Unable to download file: [curl error]'' @ getStrError e) customid res
              else [])
             @ [Fclose (fp unit)] @
             (if fp unit = None then []
              else if res = 0
              then [RenameFile (path data) (name data @ TEMP_EXT) (name data)]
                   @ (if self \<noteq> cocosThread e
                      then [PerformFunctionInCocosThread (FileFinishedFn data)]
                      else map (Invoke self) (reportDownloadFinished d (url data) (path data @ name data) (customId data)))
              else [])))"

text \<open>downloadAsync runs downloadToFP on a new thread \<open>t\<close>, downloadSync on the caller's.\<close>

definition downloadAsync ::
  "'n::zero env \<Rightarrow> 'n Downloader \<Rightarrow> thread_id \<Rightarrow> string \<Rightarrow> string \<Rightarrow> string
     \<Rightarrow> 'n Downloader \<times> 'n effect list" where
  "downloadAsync e d t src storage customid =
     (let (d', ef) = downloadToFP e d t src customid storage in (d', ThreadSpawn t # ef))"

definition downloadSync ::
  "'n::zero env \<Rightarrow> 'n Downloader \<Rightarrow> thread_id \<Rightarrow> string \<Rightarrow> string \<Rightarrow> string
     \<Rightarrow> 'n Downloader \<times> 'n effect list" where
  "downloadSync e d self src storage customid = downloadToFP e d self src customid storage"

subsection \<open>Batches\<close>

text \<open>std::vector::resize with default-constructed new elements.\<close>

definition resize :: "'a list \<Rightarrow> nat \<Rightarrow> 'a \<Rightarrow> 'a list" where
  "resize xs n x = take n xs @ replicate (n - length xs) x"

text \<open>
  The first loop of groupBatchDownload: the i-th unit is prepared with the i-th tracker, and
  its fp is assigned through the pointer. The tracker list has been resized to the number
  of units, so the second equation is never reached from groupBatchDownload.
\<close>

fun prepare_loop ::
  "'n::zero env \<Rightarrow> 'n Downloader \<Rightarrow> thread_id \<Rightarrow> DownloadUnits \<Rightarrow> 'n ProgressData list
     \<Rightarrow> 'n effect list \<times> DownloadUnits \<times> 'n ProgressData list" where
  "prepare_loop e d self ((k, u) # us) (p # ps) =
     (let (ef, f, p') = prepareDownload e d self (srcUrl u) (storagePath u) (unit_customId u) (resumeDownload u) p;
          (efs, us', ps') = prepare_loop e d self us ps
      in (ef @ efs, (k, u\<lparr>fp := f\<rparr>) # us', p' # ps'))"
| "prepare_loop e d self us ps = ([], [], ps)"

text \<open>
  The callbacks of one performBatchDownload, in the order the engine makes them. The engine
  is given the units and the trackers and passes one of them back as userdata: an event
  that names a position outside the group has no callback.
\<close>

fun batch_callbacks ::
  "'n::zero env \<Rightarrow> 'n Downloader \<Rightarrow> DownloadUnits \<Rightarrow> 'n ProgressData list \<Rightarrow> 'n batch_event list
     \<Rightarrow> 'n ProgressData list \<times> 'n effect list" where
  "batch_callbacks e d us pds [] = (pds, [])"
| "batch_callbacks e d us pds (BWrite i bytes # evs) =
     (let (pds', ef) = batch_callbacks e d us pds evs
      in (pds', (if i < length us then fileWriteFunc (fp (snd (us ! i))) bytes else []) @ ef))"
| "batch_callbacks e d us pds (BProgress t i tot now # evs) =
     (if i < length pds
      then (let (p, ef1) = batchDownloadProgressFunc e d t (pds ! i) tot now;
                (pds', ef2) = batch_callbacks e d us (pds[i := p]) evs
            in (pds', ef1 @ ef2))
      else batch_callbacks e d us pds evs)"
| "batch_callbacks e d us pds (BError msg curlm customid # evs) =
     (let (pds', ef) = batch_callbacks e d us pds evs
      in (pds', notifyError_multi msg curlm customid @ ef))"

text \<open>The body of the second loop of groupBatchDownload, for one tracker.\<close>

definition check_finished :: "'n::{zero,ord} ProgressData \<Rightarrow> 'n effect list" where
  "check_finished data =
     (if downloaded data < totalToDownload data \<or> totalToDownload data = 0
      then notifyError NETWORK ''Unable to download file'' (customId data) CURLE_OK CURLM_OK
      else [RenameFile (path data) (name data @ TEMP_EXT) (name data)])"

text \<open>The third loop of groupBatchDownload.\<close>

definition close_fps :: "DownloadUnits \<Rightarrow> 'n effect list" where
  "close_fps us = concat (map (\<lambda>(k, u). if fp u \<noteq> None then [Fclose (fp u)] else []) us)"

text \<open>
  groupBatchDownload up to the return of the engine's batch call: the effects of the
  preparation, the units as given to the engine, the trackers after the last callback and
  the effects of the callbacks. CC_ASSERT is compiled out of a release build, which is the
  build modelled: when the tracker list is not empty, resize keeps its leading elements.
\<close>

definition group_transfer ::
  "'n::zero env \<Rightarrow> 'n Downloader \<Rightarrow> thread_id \<Rightarrow> DownloadUnits
     \<Rightarrow> 'n effect list \<times> DownloadUnits \<times> 'n ProgressData list \<times> 'n effect list" where
  "group_transfer e d self units =
     (let (prep, us, pds1) = prepare_loop e d self units (resize (progDatas d) (length units) ProgressData_new);
          (pds2, cbs) = batch_callbacks e d us pds1 (performBatchDownload e us pds1)
      in (prep, us, pds2, cbs))"

definition groupBatchDownload ::
  "'n::{zero,ord} env \<Rightarrow> 'n Downloader \<Rightarrow> thread_id \<Rightarrow> DownloadUnits \<Rightarrow> 'n Downloader \<times> 'n effect list" where
  "groupBatchDownload e d self units =
     (let (prep, us, pds2, cbs) = group_transfer e d self units
      in (d\<lparr>progDatas := []\<rparr>,
          prep @ [PerformBatchDownload us] @ cbs @ concat (map check_finished pds2) @ close_fps us))"

text \<open>
  std::unordered_map::emplace: an entry whose key is present is not inserted. The model
  iterates a group in the order of insertion; the source's map may iterate a refilled
  group in another order, which changes the order of the units inside a group and nothing
  else.
\<close>

definition emplace :: "DownloadUnits \<Rightarrow> string \<times> DownloadUnit \<Rightarrow> DownloadUnits" where
  "emplace g it = (if fst it \<in> fst ` set g then g else g @ [it])"

text \<open>
  The loop of batchDownloadSync that splits the units: \<open>count\<close> and \<open>g\<close> are the loop's
  variables count and group, the list is what the iterator has not visited yet.
\<close>

fun batch_loop ::
  "'n::{zero,ord} env \<Rightarrow> 'n Downloader \<Rightarrow> thread_id \<Rightarrow> DownloadUnits \<Rightarrow> nat \<Rightarrow> DownloadUnits
     \<Rightarrow> 'n Downloader \<times> 'n effect list" where
  "batch_loop e d self [] count g =
     (if length g > 0 then groupBatchDownload e d self g else (d, []))"
| "batch_loop e d self (it # rest) count g =
     (if count = FOPEN_MAX e
      then (let (d1, ef1) = groupBatchDownload e d self g;
                (d2, ef2) = batch_loop e d1 self rest (Suc 0) (emplace [] it)
            in (d2, ef1 @ ef2))
      else batch_loop e d self rest (Suc count) (emplace g it))"

definition batchDownloadSync ::
  "'n::{zero,ord} env \<Rightarrow> 'n Downloader \<Rightarrow> thread_id \<Rightarrow> DownloadUnits \<Rightarrow> string \<Rightarrow> 'n Downloader \<times> 'n effect list" where
  "batchDownloadSync e d self units batchId =
     (let (d2, ef) =
            (case units of
               [] \<Rightarrow> (d, [])
             | (k, u) # rest \<Rightarrow>
                 (let d1 = d\<lparr>supportResuming := supportsResume e\<rparr>;
                      (d', ef') = (if length units \<ge> FOPEN_MAX e
                                   then batch_loop e d1 self units 0 []
                                   else groupBatchDownload e d1 self units)
                  in (d', EngineInit (srcUrl u) # ef')))
      in (d2\<lparr>supportResuming := False\<rparr>, ef @ [PerformFunctionInCocosThread (BatchFinishedFn batchId)]))"

definition batchDownloadAsync ::
  "'n::{zero,ord} env \<Rightarrow> 'n Downloader \<Rightarrow> thread_id \<Rightarrow> DownloadUnits \<Rightarrow> string \<Rightarrow> 'n Downloader \<times> 'n effect list" where
  "batchDownloadAsync e d t units batchId =
     (let (d', ef) = batchDownloadSync e d t units batchId in (d', ThreadSpawn t # ef))"

subsection \<open>The buffer write callback\<close>

text \<open>
  Downloader::StreamData. The integer type \<open>'i\<close> of its two counters is a word of
  the width \<open>'w\<close> that long and size_t share. A long is kept as its bit pattern, so
  that the conversion to size_t is the identity, \<open>+\<close> and \<open>*\<close> wrap and \<open>\<le>\<close>
  compares unsigned, as the source's comparison of two size_t does. \<open>buffer\<close> is the
  array that the pointer of the same name points to.
\<close>

record 'i StreamData =
  buffer :: "byte list"
  sd_total :: 'i
  offset :: 'i

text \<open>
  memcpy of \<open>n\<close> bytes from the start of \<open>src\<close> to position \<open>off\<close> of \<open>dst\<close>: \<open>None\<close> when
  the copy leaves one of the two arrays, which C leaves undefined.
\<close>

definition memcpy :: "byte list \<Rightarrow> int \<Rightarrow> byte list \<Rightarrow> nat \<Rightarrow> byte list option" where
  "memcpy dst off src n =
     (if 0 \<le> off \<and> nat off + n \<le> length dst \<and> n \<le> length src
      then Some (take (nat off) dst @ take n src @ drop (nat off + n) dst)
      else None)"

text \<open>
  bufferWriteFunc on the StreamData that the unit's fp points to: the StreamData after the
  call and the value returned, or \<open>None\<close> when the memcpy is undefined.
\<close>

definition bufferWriteFunc ::
  "byte list \<Rightarrow> 'w::len word \<Rightarrow> 'w word \<Rightarrow> 'w word StreamData \<Rightarrow> ('w word StreamData \<times> 'w word) option" where
  "bufferWriteFunc ptr sz nmemb streamBuffer =
     (let written = sz * nmemb
      in if offset streamBuffer + written \<le> sd_total streamBuffer
         then (case memcpy (buffer streamBuffer) (sint (offset streamBuffer)) ptr (unat written) of
                 None \<Rightarrow> None
               | Some b \<Rightarrow> Some (streamBuffer\<lparr>buffer := b, offset := offset streamBuffer + written\<rparr>, written))
         else Some (streamBuffer, 0))"

subsection \<open>Reading a trace\<close>




fun is_PerformBatchDownload :: "'n effect \<Rightarrow> bool" where
  "is_PerformBatchDownload (PerformBatchDownload us) = True"
| "is_PerformBatchDownload x = False"


fun is_OnError :: "'n callback \<Rightarrow> bool" where
  "is_OnError (OnError err) = True"
| "is_OnError x = False"

fun is_OnSuccess :: "'n callback \<Rightarrow> bool" where
  "is_OnSuccess (OnSuccess u p c) = True"
| "is_OnSuccess x = False"

text \<open>
  The effects that the preparation of a destination on the thread \<open>self\<close> can have:
  creating the directory, opening the file and reporting INVALID_URL or CREATE_FILE inline.
\<close>

fun prepare_effect :: "thread_id \<Rightarrow> 'n effect \<Rightarrow> bool" where
  "prepare_effect self (CreateDirectory p) = True"
| "prepare_effect self (Fopen p m) = True"
| "prepare_effect self (Invoke t (OnError err)) = (t = self \<and> (code err = INVALID_URL \<or> code err = CREATE_FILE))"
| "prepare_effect self x = False"

text \<open>
  The effects that the callbacks of a batch transfer can have: writing to a file, calling
  a progress or success handler on the cocos thread, and scheduling a progress closure or
  the report of an engine error.
\<close>

fun callback_effect :: "'n env \<Rightarrow> 'n effect \<Rightarrow> bool" where
  "callback_effect e (Fwrite f bytes) = True"
| "callback_effect e (Invoke t (OnError err)) = False"
| "callback_effect e (Invoke t cb) = (t = cocosThread e)"
| "callback_effect e (PerformFunctionInCocosThread (NotifyErrorFn err)) = (code err = CURL_MULTI_ERROR)"
| "callback_effect e (PerformFunctionInCocosThread (ProgressFinishedFn tot now p)) = (now = tot)"
| "callback_effect e (PerformFunctionInCocosThread (ProgressInProgressFn tot now p)) = (now \<noteq> tot)"
| "callback_effect e x = False"

text \<open>
  The effects that a group can have after the engine's batch call has returned: the
  rename or the NETWORK error of a tracker and the closing of an open file.
\<close>

fun accounting_effect :: "'n effect \<Rightarrow> bool" where
  "accounting_effect (RenameFile p a b) = True"
| "accounting_effect (PerformFunctionInCocosThread (NotifyErrorFn err)) = (code err = NETWORK)"
| "accounting_effect (Fclose f) = (f \<noteq> None)"
| "accounting_effect x = False"

text \<open>The unit lists that the trace hands to performBatchDownload, in order.\<close>

fun engine_batch_calls :: "'n effect list \<Rightarrow> DownloadUnits list" where
  "engine_batch_calls [] = []"
| "engine_batch_calls (PerformBatchDownload us # es) = us # engine_batch_calls es"
| "engine_batch_calls (x # es) = engine_batch_calls es"

subsection \<open>The statements of the specification\<close>


text \<open>The grouping of the specification: consecutive groups of at most \<open>L\<close> units.\<close>

fun spec_groups :: "nat \<Rightarrow> 'a list \<Rightarrow> 'a list list" where
  "spec_groups L xs = (if L = 0 \<or> xs = [] then [] else take L xs # spec_groups L (drop L xs))"

text \<open>
  The groups of the specification processed one after the other: each group is prepared,
  transferred, accounted for and closed before the next one begins.
\<close>

fun run_groups ::
  "'n::{zero,ord} env \<Rightarrow> 'n Downloader \<Rightarrow> thread_id \<Rightarrow> DownloadUnits list \<Rightarrow> 'n Downloader \<times> 'n effect list" where
  "run_groups e d self [] = (d, [])"
| "run_groups e d self (g # gs) =
     (let (d1, ef1) = groupBatchDownload e d self g;
          (d2, ef2) = run_groups e d1 self gs
      in (d2, ef1 @ ef2))"

subsection \<open>Concrete transfers\<close>

text \<open>
  An environment on which the cocos thread is thread 0, every directory exists, no temp
  file exists, every fopen succeeds and the engine cannot resolve the host: it makes no
  callback and returns CURLE_COULDNT_RESOLVE_HOST.
\<close>

definition env_unreachable :: "nat env" where
  "env_unreachable =
     \<lparr>cocosThread = 0, isDirectoryExist = (\<lambda>p. True), isFileExist = (\<lambda>p. False),
      getSuitableFOpen = (\<lambda>p. p), fopen = (\<lambda>p m. Some (length p)), errno = 0, FOPEN_MAX = 16,
      supportsResume = False, getStrError = ''Could not resolve host'',
      performDownload = (\<lambda>u p. ([], 6)), performBatchDownload = (\<lambda>us ps. [])\<rparr>"

text \<open>
  The same file system with an engine that succeeds: a single transfer writes three bytes
  and reports them with an unknown total (0, as for a chunked response), then returns 0;
  a batch transfer reports every tracker complete at 10 of 10 bytes, on thread 1.
\<close>

definition env_ok :: "nat env" where
  "env_ok =
     \<lparr>cocosThread = 0, isDirectoryExist = (\<lambda>p. True), isFileExist = (\<lambda>p. False),
      getSuitableFOpen = (\<lambda>p. p), fopen = (\<lambda>p m. Some (length p)), errno = 0, FOPEN_MAX = 2,
      supportsResume = False, getStrError = [],
      performDownload = (\<lambda>u p. ([WriteData [1, 2, 3], Progress 0 3], 0)),
      performBatchDownload = (\<lambda>us ps. map (\<lambda>i. BProgress 1 i 10 10) [0 ..< length ps])\<rparr>"



text \<open>
  An environment on which a batch transfer first reports 5 bytes of 10 for its first
  tracker and later 15 bytes of 20, as when the engine follows a redirect to a longer
  resource, and then stops.
\<close>

definition env_redirect :: "nat env" where
  "env_redirect =
     \<lparr>cocosThread = 0, isDirectoryExist = (\<lambda>p. True), isFileExist = (\<lambda>p. False),
      getSuitableFOpen = (\<lambda>p. p), fopen = (\<lambda>p m. Some (length p)), errno = 0, FOPEN_MAX = 16,
      supportsResume = False, getStrError = [],
      performDownload = (\<lambda>u p. ([], 0)),
      performBatchDownload = (\<lambda>us ps. [BProgress 1 0 10 5, BProgress 1 0 20 15])\<rparr>"

text \<open>A downloader with its three handlers installed and no batch in flight.\<close>

definition downloader0 :: "nat Downloader" where
  "downloader0 = \<lparr>onError = True, onProgress = True, onSuccess = True, supportResuming = False, progDatas = []\<rparr>"

definition unit_a :: DownloadUnit where
  "unit_a = \<lparr>srcUrl = ''http://x/a.bin'', storagePath = ''/tmp/a.bin'', unit_customId = ''A'',
             resumeDownload = False, fp = None\<rparr>"

definition unit_b :: DownloadUnit where
  "unit_b = \<lparr>srcUrl = ''http://x/b.bin'', storagePath = ''/tmp/b.bin'', unit_customId = ''B'',
             resumeDownload = False, fp = None\<rparr>"

definition unit_c :: DownloadUnit where
  "unit_c = \<lparr>srcUrl = ''http://x/c.bin'', storagePath = ''/tmp/c.bin'', unit_customId = ''C'',
             resumeDownload = True, fp = None\<rparr>"

section \<open>Properties\<close>

subsection \<open>Preparation\<close>

lemma prepare_effects:
  "x \<in> set (fst (prepareDownload e d self src storage customid resume p)) \<Longrightarrow> prepare_effect self x"
  by (auto simp: prepareDownload_def Let_def split: option.splits if_splits)


lemma prepare_tracker:
  "snd (snd (prepareDownload e d self src storage customid resume p)) =
     (case find_last_of storage separators of
        None \<Rightarrow> p\<lparr>customId := customid, url := src, downloaded := 0, totalToDownload := 0\<rparr>
      | Some found \<Rightarrow> p\<lparr>customId := customid, url := src, downloaded := 0, totalToDownload := 0,
                         name := drop (found + 1) storage, path := take (found + 1) storage\<rparr>)"
  by (simp add: prepareDownload_def Let_def split: option.splits)


subsection \<open>Callbacks\<close>

lemma downloadProgressFunc_fields:
  "customId (fst (downloadProgressFunc p tot now)) = customId p"
  "url (fst (downloadProgressFunc p tot now)) = url p"
  "path (fst (downloadProgressFunc p tot now)) = path p"
  "name (fst (downloadProgressFunc p tot now)) = name p"
  by (simp_all add: downloadProgressFunc_def Let_def)

lemma downloadProgressFunc_effects:
  "x \<in> set (snd (downloadProgressFunc p tot now)) \<Longrightarrow> \<exists>t n q. x = PerformFunctionInCocosThread (ProgressFn t n q)"
  by (auto simp: downloadProgressFunc_def Let_def split: if_splits)

lemma single_callbacks_fields:
  "customId (fst (single_callbacks wr data evs)) = customId data
   \<and> url (fst (single_callbacks wr data evs)) = url data
   \<and> path (fst (single_callbacks wr data evs)) = path data
   \<and> name (fst (single_callbacks wr data evs)) = name data"
proof (induction wr data evs rule: single_callbacks.induct)
  case (1 wr data)
  then show ?case by simp
next
  case (2 wr data bytes evs)
  then show ?case by (simp add: case_prod_unfold Let_def)
next
  case (3 wr data tot now evs)
  from 3[OF refl prod.collapse]
  show ?case by (simp add: case_prod_unfold Let_def downloadProgressFunc_fields)
qed

lemma single_callbacks_effects:
  "x \<in> set (snd (single_callbacks wr data evs)) \<Longrightarrow>
     (\<exists>bytes. x \<in> set (wr bytes)) \<or> (\<exists>t n q. x = PerformFunctionInCocosThread (ProgressFn t n q))"
proof (induction wr data evs rule: single_callbacks.induct)
  case (1 wr data)
  then show ?case by simp
next
  case (2 wr data bytes evs)
  then show ?case by (auto simp: case_prod_unfold Let_def)
next
  case (3 wr data tot now evs)
  from 3(2) have "x \<in> set (snd (downloadProgressFunc data tot now))
      \<or> x \<in> set (snd (single_callbacks wr (fst (downloadProgressFunc data tot now)) evs))"
    by (auto simp: case_prod_unfold Let_def)
  then show ?case
  proof
    assume "x \<in> set (snd (downloadProgressFunc data tot now))"
    then show ?thesis using downloadProgressFunc_effects by blast
  next
    assume "x \<in> set (snd (single_callbacks wr (fst (downloadProgressFunc data tot now)) evs))"
    then show ?thesis
      using 3(1)[OF refl prod.collapse] by simp
  qed
qed


lemma batchDownloadProgressFunc_effects:
  "x \<in> set (snd (batchDownloadProgressFunc e d t p tot now)) \<Longrightarrow> callback_effect e x"
  by (auto simp: batchDownloadProgressFunc_def Let_def reportProgressFinished_def
        reportProgressInProgress_def reportDownloadFinished_def split: if_splits)




lemma batch_callbacks_effects:
  "x \<in> set (snd (batch_callbacks e d us pds evs)) \<Longrightarrow> callback_effect e x"
proof (induction e d us pds evs rule: batch_callbacks.induct)
  case (1 e d us pds)
  then show ?case by simp
next
  case (2 e d us pds i bytes evs)
  then show ?case by (auto simp: case_prod_unfold Let_def fileWriteFunc_def split: if_splits)
next
  case (3 e d us pds t i tot now evs)
  show ?case
  proof (cases "i < length pds")
    case True
    let ?r = "batchDownloadProgressFunc e d t (pds ! i) tot now"
    from 3(3) True have "x \<in> set (snd ?r) \<or> x \<in> set (snd (batch_callbacks e d us (pds[i := fst ?r]) evs))"
      by (auto simp: case_prod_unfold Let_def)
    then show ?thesis
      using batchDownloadProgressFunc_effects 3(1)[OF True refl prod.collapse] by auto
  next
    case False
    with 3(2,3) show ?thesis by simp
  qed
next
  case (4 e d us pds msg curlm customid evs)
  then show ?case
    by (auto simp: case_prod_unfold Let_def notifyError_multi_def notifyError_def)
qed

subsection \<open>One group of a batch\<close>

lemma length_resize: "length (resize xs n x) = n"
  by (simp add: resize_def)

lemma prepare_loop_effects:
  "x \<in> set (fst (prepare_loop e d self us ps)) \<Longrightarrow> prepare_effect self x"
proof (induction e d self us ps rule: prepare_loop.induct)
  case (1 e d self k u us p ps)
  from 1(2) have "x \<in> set (fst (prepareDownload e d self (srcUrl u) (storagePath u) (unit_customId u) (resumeDownload u) p))
      \<or> x \<in> set (fst (prepare_loop e d self us ps))"
    by (auto simp: case_prod_unfold Let_def)
  then show ?case
    using prepare_effects 1(1)[OF refl prod.collapse prod.collapse] by blast
qed simp_all


lemma prepare_loop_units:
  "length ps = length us \<Longrightarrow>
   map fst (fst (snd (prepare_loop e d self us ps))) = map fst us
   \<and> length (fst (snd (prepare_loop e d self us ps))) = length us
   \<and> map (\<lambda>(k, u). u\<lparr>fp := None\<rparr>) (fst (snd (prepare_loop e d self us ps))) = map (\<lambda>(k, u). u\<lparr>fp := None\<rparr>) us"
proof (induction ps us rule: list_induct2)
  case Nil
  then show ?case by simp
next
  case (Cons p ps ku us)
  then show ?case
    by (cases ku) (simp add: case_prod_unfold Let_def)
qed



lemma check_finished_effects:
  "x \<in> set (check_finished p) \<Longrightarrow> accounting_effect x"
  by (auto simp: check_finished_def notifyError_def split: if_splits)

lemma close_fps_effects:
  "x \<in> set (close_fps us) \<Longrightarrow> accounting_effect x"
  by (auto simp: close_fps_def split: if_splits)

lemma group_trace:
  "snd (groupBatchDownload e d self units) =
     fst (group_transfer e d self units)
     @ [PerformBatchDownload (fst (snd (group_transfer e d self units)))]
     @ snd (snd (snd (group_transfer e d self units)))
     @ concat (map check_finished (fst (snd (snd (group_transfer e d self units)))))
     @ close_fps (fst (snd (group_transfer e d self units)))"
  by (simp add: groupBatchDownload_def case_prod_unfold Let_def)


lemma group_transfer_effects:
  "x \<in> set (fst (group_transfer e d self units)) \<Longrightarrow> prepare_effect self x"
  "x \<in> set (snd (snd (snd (group_transfer e d self units)))) \<Longrightarrow> callback_effect e x"
  by (auto simp: group_transfer_def case_prod_unfold Let_def
        dest: prepare_loop_effects batch_callbacks_effects)

lemma group_effects:
  "x \<in> set (snd (groupBatchDownload e d self units)) \<Longrightarrow>
     prepare_effect self x \<or> callback_effect e x \<or> accounting_effect x
     \<or> x = PerformBatchDownload (fst (snd (group_transfer e d self units)))"
  unfolding group_trace
  by (auto dest: group_transfer_effects check_finished_effects close_fps_effects)


lemma group_transfer_units:
  "map fst (fst (snd (group_transfer e d self units))) = map fst units"
  "length (fst (snd (group_transfer e d self units))) = length units"
  "map (\<lambda>(k, u). u\<lparr>fp := None\<rparr>) (fst (snd (group_transfer e d self units))) = map (\<lambda>(k, u). u\<lparr>fp := None\<rparr>) units"
  using prepare_loop_units[of "resize (progDatas d) (length units) ProgressData_new" units e d self]
  by (simp_all add: group_transfer_def case_prod_unfold Let_def length_resize)






subsection \<open>The loop over the units of a batch\<close>

text \<open>
  What holds of every effect of every group holds of every effect of the loop, when the
  groups keep the condition \<open>I\<close> on the downloader that it depends on.
\<close>

lemma batch_loop_all:
  assumes step: "\<And>d g. I d \<Longrightarrow> I (fst (groupBatchDownload e d self g))
                    \<and> (\<forall>x \<in> set (snd (groupBatchDownload e d self g)). P x)"
      and "I d"
  shows "I (fst (batch_loop e d self us c g)) \<and> (\<forall>x \<in> set (snd (batch_loop e d self us c g)). P x)"
  using assms(2)
proof (induction us arbitrary: d c g)
  case Nil
  then show ?case using step by simp
next
  case (Cons it rest)
  show ?case
  proof (cases "c = FOPEN_MAX e")
    case True
    from step[OF Cons(2)] have I1: "I (fst (groupBatchDownload e d self g))"
      and P1: "\<forall>x \<in> set (snd (groupBatchDownload e d self g)). P x" by simp_all
    from Cons(1)[OF I1] P1 True show ?thesis
      by (auto simp: case_prod_unfold Let_def)
  next
    case False
    with Cons(1)[OF Cons(2)] show ?thesis by simp
  qed
qed

subsection \<open>Undefined calls\<close>

lemma defined_run_all: "(\<And>x. x \<in> set ef \<Longrightarrow> \<not> undefined_call x) \<Longrightarrow> defined_run ef = ef"
  by (induction ef) simp_all

lemma defined_run_subset: "x \<in> set (defined_run ef) \<Longrightarrow> x \<in> set ef"
  by (induction ef) (auto split: if_splits)

lemma defined_run_stops:
  "x \<in> set ef \<Longrightarrow> undefined_call x \<Longrightarrow>
   \<exists>pre y. defined_run ef = pre @ [y] \<and> undefined_call y \<and> (\<forall>z \<in> set pre. \<not> undefined_call z)"
proof (induction ef)
  case Nil
  then show ?case by simp
next
  case (Cons a ef)
  show ?case
  proof (cases "undefined_call a")
    case True
    then have "defined_run (a # ef) = [] @ [a] \<and> undefined_call a
        \<and> (\<forall>z \<in> set ([] :: 'a effect list). \<not> undefined_call z)" by simp
    then show ?thesis by (intro exI)
  next
    case False
    with Cons(2,3) have "x \<in> set ef" by auto
    from Cons(1)[OF this Cons(3)] obtain pre y where "defined_run ef = pre @ [y]"
      and "undefined_call y" and "\<forall>z \<in> set pre. \<not> undefined_call z" by blast
    with False have "defined_run (a # ef) = (a # pre) @ [y] \<and> undefined_call y
        \<and> (\<forall>z \<in> set (a # pre). \<not> undefined_call z)" by simp
    then show ?thesis by blast
  qed
qed

lemma prepare_effect_defined: "prepare_effect self x \<Longrightarrow> \<not> undefined_call x"
  by (cases x) simp_all

lemma accounting_effect_defined: "accounting_effect x \<Longrightarrow> \<not> undefined_call x"
  by (cases x) simp_all

text \<open>
  A group closes only the files that are open, so its trace has an undefined call only
  where the engine writes to a unit whose file the preparation could not open; without
  such a write the trace of the group is a run of the program.
\<close>

lemma group_defined:
  assumes "\<And>x. x \<in> set (snd (snd (snd (group_transfer e d self units)))) \<Longrightarrow> \<not> undefined_call x"
  shows "defined_run (snd (groupBatchDownload e d self units)) = snd (groupBatchDownload e d self units)"
proof (rule defined_run_all)
  fix x
  assume "x \<in> set (snd (groupBatchDownload e d self units))"
  then consider "x \<in> set (fst (group_transfer e d self units))"
    | "x \<in> set (snd (snd (snd (group_transfer e d self units))))"
    | p where "x \<in> set (check_finished p)"
    | "x \<in> set (close_fps (fst (snd (group_transfer e d self units))) :: 'a effect list)"
    | "x = PerformBatchDownload (fst (snd (group_transfer e d self units)))"
    unfolding group_trace by auto
  then show "\<not> undefined_call x"
  proof cases
    case 1
    then show ?thesis
      by (auto dest: group_transfer_effects prepare_effect_defined)
  next
    case 2
    then show ?thesis by (rule assms)
  next
    case 3
    then show ?thesis
      by (auto dest: check_finished_effects accounting_effect_defined)
  next
    case 4
    then show ?thesis
      by (auto dest: close_fps_effects accounting_effect_defined)
  next
    case 5
    then show ?thesis by simp
  qed
qed

subsection \<open>Single transfers\<close>

lemma file_transfer_props:
  assumes "file_transfer e d self src customid storage = (prep, unit, cbs, data, res)"
  shows "prep = fst (prepareDownload e d self src storage customid False ProgressData_new)"
    and "unit = \<lparr>srcUrl = src, storagePath = storage, unit_customId = customid, resumeDownload = False,
                  fp = fst (snd (prepareDownload e d self src storage customid False ProgressData_new))\<rparr>"
    and "customId data = customid"
    and "url data = src"
    and "find_last_of storage separators \<noteq> None \<Longrightarrow> path data @ name data = storage"
    and "find_last_of storage separators = None \<Longrightarrow> path data = [] \<and> name data = []"
  using assms
  by (auto simp: file_transfer_def case_prod_unfold Let_def single_callbacks_fields prepare_tracker
        ProgressData_new_def split: option.splits)

lemma file_transfer_callbacks:
  assumes "file_transfer e d self src customid storage = (prep, unit, cbs, data, res)"
      and "x \<in> set cbs"
  shows "(\<exists>bytes. x = Fwrite (fp unit) bytes) \<or> (\<exists>t n q. x = PerformFunctionInCocosThread (ProgressFn t n q))"
proof -
  from assms(1) have "cbs = snd (single_callbacks (fileWriteFunc (fp unit))
      (snd (snd (prepareDownload e d self src storage customid False ProgressData_new)))
      (fst (performDownload e unit (snd (snd (prepareDownload e d self src storage customid False ProgressData_new))))))"
    by (auto simp: file_transfer_def case_prod_unfold Let_def)
  with assms(2) single_callbacks_effects[of x "fileWriteFunc (fp unit)"] show ?thesis
    by (auto simp: fileWriteFunc_def)
qed

lemma downloadToFP_trace:
  assumes "file_transfer e d self src customid storage = (prep, unit, cbs, data, res)"
  shows "snd (downloadToFP e d self src customid storage) =
     prep @ [EngineInit src, PerformDownload unit] @ cbs @
     (if res \<noteq> 0
      then [RemoveFile (path data @ name data @ TEMP_EXT)]
           @ notifyError_easy (''Unable to download file: [curl error]'' @ getStrError e) customid res
      else [])
     @ [Fclose (fp unit)] @
     (if fp unit = None then []
      else if res = 0
      then [RenameFile (path data) (name data @ TEMP_EXT) (name data)]
           @ (if self \<noteq> cocosThread e
              then [PerformFunctionInCocosThread (FileFinishedFn data)]
              else map (Invoke self) (reportDownloadFinished d (url data) (path data @ name data) (customId data)))
      else [])"
  using assms by (simp add: downloadToFP_def)

lemma buffer_transfer_callbacks:
  assumes "buffer_transfer e src customid buf sz = (unit, cbs, data, res)"
      and "x \<in> set cbs"
  shows "(\<exists>bytes. x = BufferWrite buf bytes) \<or> (\<exists>t n q. x = PerformFunctionInCocosThread (ProgressFn t n q))"
proof -
  let ?u = "\<lparr>srcUrl = src, storagePath = [], unit_customId = customid, resumeDownload = False, fp = buf\<rparr>"
  let ?p = "ProgressData_new\<lparr>customId := customid, url := src, downloaded := 0, totalToDownload := 0\<rparr>"
  from assms(1) have "cbs = snd (single_callbacks (\<lambda>bytes. [BufferWrite buf bytes]) ?p (fst (performDownload e ?u ?p)))"
    by (auto simp: buffer_transfer_def case_prod_unfold Let_def)
  with assms(2) single_callbacks_effects[of x "\<lambda>bytes. [BufferWrite buf bytes]"] show ?thesis
    by auto
qed

lemma downloadToBuffer_trace:
  assumes "buffer_transfer e src customid buf sz = (unit, cbs, data, res)"
  shows "snd (downloadToBuffer e d self src customid buf sz) =
     [EngineInit src, PerformDownload unit] @ cbs @
     (if res \<noteq> 0
      then notifyError_easy (''Unable to download file to buffer: [curl error]'' @ getStrError e) customid res
      else (if self \<noteq> cocosThread e
            then [PerformFunctionInCocosThread (BufferFinishedFn data)]
            else map (Invoke self) (reportDownloadFinished d (url data) [] (customId data))))"
  using assms by (simp add: downloadToBuffer_def)

lemma inline_calls_append: "inline_calls (xs @ ys) = inline_calls xs @ inline_calls ys"
  by (induction xs rule: inline_calls.induct) simp_all

lemma queued_append: "queued (xs @ ys) = queued xs @ queued ys"
  by (induction xs rule: queued.induct) simp_all

lemma inline_calls_Invoke: "inline_calls (map (Invoke t) cbs) = map (Pair t) cbs"
  by (induction cbs) simp_all

lemma queued_Invoke: "queued (map (Invoke t) cbs) = []"
  by (induction cbs) simp_all

lemma invocations_set:
  "set (invocations cocos d expired ef) =
     set (inline_calls ef) \<union> Pair cocos ` (\<Union>c \<in> set (queued ef). set (run_closure d expired c))"
  by (auto simp: invocations_def)

lemma inline_calls_mem: "(t, cb) \<in> set (inline_calls ef) \<Longrightarrow> Invoke t cb \<in> set ef"
  by (induction ef rule: inline_calls.induct) auto

lemma queued_mem: "c \<in> set (queued ef) \<Longrightarrow> PerformFunctionInCocosThread c \<in> set ef"
  by (induction ef rule: queued.induct) auto

lemma progress_only:
  assumes "\<And>x. x \<in> set xs \<Longrightarrow>
     (\<exists>f bytes. x = Fwrite f bytes) \<or> (\<exists>f bytes. x = BufferWrite f bytes)
     \<or> (\<exists>t n q. x = PerformFunctionInCocosThread (ProgressFn t n q))"
  shows "inline_calls xs = []"
    and "\<forall>c \<in> set (queued xs). \<exists>t n q. c = ProgressFn t n q"
proof -
  have "inline_calls xs = [] \<and> (\<forall>c \<in> set (queued xs). \<exists>t n q. c = ProgressFn t n q)"
    using assms
  proof (induction xs)
    case Nil
    then show ?case by simp
  next
    case (Cons x xs)
    have ih: "inline_calls xs = [] \<and> (\<forall>c \<in> set (queued xs). \<exists>t n q. c = ProgressFn t n q)"
      using Cons by simp
    from Cons(2)[of x] consider
        (w) f bytes where "x = Fwrite f bytes"
      | (b) f bytes where "x = BufferWrite f bytes"
      | (p) t n q where "x = PerformFunctionInCocosThread (ProgressFn t n q)"
      by auto
    then show ?case
    proof cases
      case w
      with ih show ?thesis by simp
    next
      case b
      with ih show ?thesis by simp
    next
      case p
      with ih show ?thesis by auto
    qed
  qed
  then show "inline_calls xs = []"
    and "\<forall>c \<in> set (queued xs). \<exists>t n q. c = ProgressFn t n q" by simp_all
qed

lemma invocations_progress_only:
  assumes "\<And>x. x \<in> set xs \<Longrightarrow>
     (\<exists>f bytes. x = Fwrite f bytes) \<or> (\<exists>f bytes. x = BufferWrite f bytes)
     \<or> (\<exists>t n q. x = PerformFunctionInCocosThread (ProgressFn t n q))"
  shows "\<forall>i \<in> set (invocations cocos d expired xs). fst i = cocos \<and> \<not> is_OnError (snd i) \<and> \<not> is_OnSuccess (snd i)"
proof
  fix i
  assume "i \<in> set (invocations cocos d expired xs)"
  with progress_only[OF assms] obtain c cb where "c \<in> set (queued xs)"
    and cb: "cb \<in> set (run_closure d expired c)" and i: "i = (cocos, cb)"
    by (auto simp: invocations_set)
  with progress_only(2)[OF assms] obtain t n q where "c = ProgressFn t n q" by blast
  with cb i show "fst i = cocos \<and> \<not> is_OnError (snd i) \<and> \<not> is_OnSuccess (snd i)"
    by (auto split: if_splits)
qed

subsection \<open>The loop of batchDownloadSync and the groups of the specification\<close>

declare spec_groups.simps [simp del]

lemma spec_groups_Nil: "spec_groups L [] = []"
  by (simp add: spec_groups.simps)

lemma spec_groups_full:
  "length g = L \<Longrightarrow> 0 < L \<Longrightarrow> spec_groups L (g @ us) = g # spec_groups L us"
  by (subst spec_groups.simps) auto

lemma spec_groups_last:
  "g \<noteq> [] \<Longrightarrow> length g \<le> L \<Longrightarrow> spec_groups L g = [g]"
  by (subst spec_groups.simps) (cases L; auto simp: spec_groups_Nil)

lemma spec_groups_concat: "0 < L \<Longrightarrow> concat (spec_groups L xs) = xs"
proof (induction L xs rule: spec_groups.induct)
  case (1 L xs)
  then show ?case by (subst spec_groups.simps) auto
qed

lemma spec_groups_bound: "g \<in> set (spec_groups L xs) \<Longrightarrow> g \<noteq> [] \<and> length g \<le> L"
proof (induction L xs rule: spec_groups.induct)
  case (1 L xs)
  from 1(2) have ne: "\<not> (L = 0 \<or> xs = [])"
    by (subst (asm) spec_groups.simps) (auto split: if_splits)
  from 1(2) have "g \<in> set (take L xs # spec_groups L (drop L xs))"
    by (subst (asm) spec_groups.simps) (simp add: ne)
  then have "g = take L xs \<or> g \<in> set (spec_groups L (drop L xs))" by simp
  then show ?case using 1(1)[OF ne] ne by auto
qed

lemma spec_groups_length: "0 < L \<Longrightarrow> length (spec_groups L xs) = (length xs + L - 1) div L"
proof (induction L xs rule: spec_groups.induct)
  case (1 L xs)
  show ?case
  proof (cases "xs = []")
    case True
    with 1(2) show ?thesis by (simp add: spec_groups_Nil)
  next
    case False
    with 1(2) have ne: "\<not> (L = 0 \<or> xs = [])" by simp
    have step: "length (spec_groups L xs) = Suc (length (spec_groups L (drop L xs)))"
      using ne by (subst spec_groups.simps) simp
    show ?thesis
    proof (cases "L \<le> length xs")
      case True
      then have "length xs + L - 1 = (length xs - L + L - 1) + L" using 1(2) by simp
      then have "(length xs + L - 1) div L = Suc ((length xs - L + L - 1) div L)"
        using 1(2) by (metis div_add_self2 less_numeral_extra(3) Suc_eq_plus1)
      with step 1(1)[OF ne 1(2)] show ?thesis by simp
    next
      case False
      then have lt: "length xs < L" by simp
      from False have "drop L xs = []" by simp
      with step have l: "length (spec_groups L xs) = 1" by (simp add: spec_groups_Nil)
      from \<open>xs \<noteq> []\<close> have pos: "0 < length xs" by simp
      have "length xs + L - 1 = (length xs - 1) + L" using pos by linarith
      then have "(length xs + L - 1) div L = Suc ((length xs - 1) div L)"
        using 1(2) by (metis div_add_self2 less_numeral_extra(3) Suc_eq_plus1)
      moreover have "(length xs - 1) div L = 0" using lt by simp
      ultimately show ?thesis using l by simp
    qed
  qed
qed

lemma emplace_new: "fst it \<notin> fst ` set g \<Longrightarrow> emplace g it = g @ [it]"
  by (simp add: emplace_def)

lemma run_groups_single: "run_groups e d self [g] = groupBatchDownload e d self g"
  by (simp add: case_prod_unfold Let_def)

lemma batch_loop_groups:
  "distinct (map fst (g @ us)) \<Longrightarrow> length g = c \<Longrightarrow> c \<le> FOPEN_MAX e \<Longrightarrow> 0 < FOPEN_MAX e \<Longrightarrow>
   batch_loop e d self us c g = run_groups e d self (spec_groups (FOPEN_MAX e) (g @ us))"
proof (induction us arbitrary: d c g)
  case Nil
  show ?case
  proof (cases "g = []")
    case True
    then show ?thesis by (simp add: spec_groups_Nil)
  next
    case False
    with Nil have "c \<noteq> 0" by auto
    with False Nil show ?thesis by (simp add: spec_groups_last run_groups_single)
  qed
next
  case (Cons it rest)
  show ?case
  proof (cases "c = FOPEN_MAX e")
    case True
    have d1: "distinct (map fst ([it] @ rest))" using Cons(2) by simp
    have sg: "spec_groups (FOPEN_MAX e) (g @ it # rest) = g # spec_groups (FOPEN_MAX e) ([it] @ rest)"
      using spec_groups_full[of g "FOPEN_MAX e" "it # rest"] Cons(3,5) True by simp
    have ih: "\<And>d'. batch_loop e d' self rest (Suc 0) [it]
                = run_groups e d' self (spec_groups (FOPEN_MAX e) ([it] @ rest))"
      using Cons(1)[OF d1, of "Suc 0"] Cons(5) by simp
    show ?thesis using True by (simp add: sg ih emplace_def)
  next
    case False
    have new: "fst it \<notin> fst ` set g" using Cons(2) by auto
    have d1: "distinct (map fst ((g @ [it]) @ rest))" using Cons(2) by simp
    have "batch_loop e d self rest (Suc c) (g @ [it])
            = run_groups e d self (spec_groups (FOPEN_MAX e) ((g @ [it]) @ rest))"
      using Cons(1)[OF d1, of "Suc c" d] Cons(3,4) False by simp
    then show ?thesis using False by (simp add: emplace_new[OF new])
  qed
qed

lemma batchDownloadSync_groups:
  assumes "distinct (map fst units)" and "0 < FOPEN_MAX e"
  shows "snd (batchDownloadSync e d self units batchId) =
     (case units of [] \<Rightarrow> [] | (k, u) # rest \<Rightarrow> [EngineInit (srcUrl u)])
     @ snd (run_groups e (d\<lparr>supportResuming := supportsResume e\<rparr>) self (spec_groups (FOPEN_MAX e) units))
     @ [PerformFunctionInCocosThread (BatchFinishedFn batchId)]"
proof (cases units)
  case Nil
  then show ?thesis by (simp add: batchDownloadSync_def spec_groups_Nil)
next
  case (Cons ku rest)
  obtain k u where ku: "ku = (k, u)" by (cases ku)
  show ?thesis
  proof (cases "FOPEN_MAX e \<le> length units")
    case True
    from batch_loop_groups[of "[]" units 0 e "d\<lparr>supportResuming := supportsResume e\<rparr>" self] assms
    have "batch_loop e (d\<lparr>supportResuming := supportsResume e\<rparr>) self units 0 []
            = run_groups e (d\<lparr>supportResuming := supportsResume e\<rparr>) self (spec_groups (FOPEN_MAX e) units)"
      by simp
    with True Cons ku show ?thesis
      by (simp add: batchDownloadSync_def case_prod_unfold Let_def)
  next
    case False
    then have "spec_groups (FOPEN_MAX e) units = [units]"
      using Cons by (simp add: spec_groups_last)
    with False Cons ku show ?thesis
      by (simp add: batchDownloadSync_def case_prod_unfold Let_def)
  qed
qed

lemma engine_batch_calls_append:
  "engine_batch_calls (xs @ ys) = engine_batch_calls xs @ engine_batch_calls ys"
  by (induction xs rule: engine_batch_calls.induct) simp_all

lemma engine_batch_calls_none:
  "(\<And>x. x \<in> set xs \<Longrightarrow> \<not> is_PerformBatchDownload x) \<Longrightarrow> engine_batch_calls xs = []"
proof (induction xs rule: engine_batch_calls.induct)
  case (2 us es)
  from 2(2)[of "PerformBatchDownload us"] show ?case by simp
qed simp_all

lemma prepare_effect_no_call: "prepare_effect self x \<Longrightarrow> \<not> is_PerformBatchDownload x"
  by (cases x) simp_all

lemma callback_effect_no_call: "callback_effect e x \<Longrightarrow> \<not> is_PerformBatchDownload x"
  by (cases x) simp_all

lemma accounting_effect_no_call: "accounting_effect x \<Longrightarrow> \<not> is_PerformBatchDownload x"
  by (cases x) simp_all

lemma group_engine_calls:
  "engine_batch_calls (snd (groupBatchDownload e d self units)) = [fst (snd (group_transfer e d self units))]"
proof -
  have "engine_batch_calls (fst (group_transfer e d self units)) = []"
    by (rule engine_batch_calls_none) (auto dest: group_transfer_effects prepare_effect_no_call)
  moreover have "engine_batch_calls (snd (snd (snd (group_transfer e d self units)))) = []"
    by (rule engine_batch_calls_none) (auto dest: group_transfer_effects callback_effect_no_call)
  moreover have "engine_batch_calls (concat (map check_finished (fst (snd (snd (group_transfer e d self units)))))) = []"
    by (rule engine_batch_calls_none) (auto dest: check_finished_effects accounting_effect_no_call)
  moreover have "engine_batch_calls (close_fps (fst (snd (group_transfer e d self units))) :: 'a effect list) = []"
    by (rule engine_batch_calls_none) (auto dest: close_fps_effects accounting_effect_no_call)
  ultimately show ?thesis
    by (simp add: group_trace engine_batch_calls_append)
qed

lemma run_groups_engine_calls:
  "map (map fst) (engine_batch_calls (snd (run_groups e d self gs))) = map (map fst) gs"
proof (induction gs arbitrary: d)
  case Nil
  then show ?case by simp
next
  case (Cons g gs)
  then show ?case
    by (simp add: case_prod_unfold Let_def engine_batch_calls_append group_engine_calls group_transfer_units)
qed

subsection \<open>What holds of every effect of a batch\<close>

lemma batchDownloadSync_all:
  assumes group: "\<And>d g x. x \<in> set (snd (groupBatchDownload e d self g)) \<Longrightarrow> P x"
      and init: "\<And>u. P (EngineInit u)"
      and final: "P (PerformFunctionInCocosThread (BatchFinishedFn batchId))"
      and x: "x \<in> set (snd (batchDownloadSync e d self units batchId))"
  shows "P x"
proof (cases units)
  case Nil
  with x final show ?thesis by (simp add: batchDownloadSync_def)
next
  case (Cons ku rest)
  obtain k u where ku: "ku = (k, u)" by (cases ku)
  let ?d1 = "d\<lparr>supportResuming := supportsResume e\<rparr>"
  have loop: "\<forall>y \<in> set (snd (batch_loop e ?d1 self units 0 [])). P y"
    using batch_loop_all[of "\<lambda>d. True" e self P ?d1 units 0 "[]"] group by simp
  show ?thesis
  proof (cases "FOPEN_MAX e \<le> length units")
    case True
    with x Cons ku have "x = EngineInit (srcUrl u) \<or> x \<in> set (snd (batch_loop e ?d1 self units 0 []))
        \<or> x = PerformFunctionInCocosThread (BatchFinishedFn batchId)"
      by (auto simp: batchDownloadSync_def case_prod_unfold Let_def)
    with loop init final show ?thesis by auto
  next
    case False
    with x Cons ku have "x = EngineInit (srcUrl u) \<or> x \<in> set (snd (groupBatchDownload e ?d1 self units))
        \<or> x = PerformFunctionInCocosThread (BatchFinishedFn batchId)"
      by (auto simp: batchDownloadSync_def case_prod_unfold Let_def)
    with group init final show ?thesis by auto
  qed
qed

lemma batchDownloadSync_last:
  "\<exists>ef. snd (batchDownloadSync e d self units batchId) = ef @ [PerformFunctionInCocosThread (BatchFinishedFn batchId)]
     \<and> (\<forall>x \<in> set ef. (\<exists>u. x = EngineInit u) \<or> (\<exists>d' g. x \<in> set (snd (groupBatchDownload e d' self g))))"
proof (cases units)
  case Nil
  then show ?thesis by (simp add: batchDownloadSync_def)
next
  case (Cons ku rest)
  obtain k u where ku: "ku = (k, u)" by (cases ku)
  let ?d1 = "d\<lparr>supportResuming := supportsResume e\<rparr>"
  let ?P = "\<lambda>x. \<exists>d' g. x \<in> set (snd (groupBatchDownload e d' self g))"
  have loop: "\<forall>y \<in> set (snd (batch_loop e ?d1 self units 0 [])). ?P y"
    using batch_loop_all[of "\<lambda>d. True" e self ?P ?d1 units 0 "[]"] by blast
  show ?thesis
  proof (cases "FOPEN_MAX e \<le> length units")
    case True
    with Cons ku have "snd (batchDownloadSync e d self units batchId) =
        (EngineInit (srcUrl u) # snd (batch_loop e ?d1 self units 0 [])) @ [PerformFunctionInCocosThread (BatchFinishedFn batchId)]"
      by (simp add: batchDownloadSync_def case_prod_unfold Let_def)
    moreover have "\<forall>x \<in> set (EngineInit (srcUrl u) # snd (batch_loop e ?d1 self units 0 [])).
        (\<exists>u. x = EngineInit u) \<or> ?P x"
      using loop by auto
    ultimately show ?thesis by blast
  next
    case False
    with Cons ku have "snd (batchDownloadSync e d self units batchId) =
        (EngineInit (srcUrl u) # snd (groupBatchDownload e ?d1 self units)) @ [PerformFunctionInCocosThread (BatchFinishedFn batchId)]"
      by (simp add: batchDownloadSync_def case_prod_unfold Let_def)
    moreover have "\<forall>x \<in> set (EngineInit (srcUrl u) # snd (groupBatchDownload e ?d1 self units)).
        (\<exists>u. x = EngineInit u) \<or> ?P x"
      by auto
    ultimately show ?thesis by blast
  qed
qed

subsection \<open>The fopen calls of a trace\<close>






subsection \<open>The mode in which the temp file is opened\<close>



subsection \<open>The groups of a batch\<close>

text \<open>
  C6: a batch of N units, with distinct keys as in a map, on a platform whose open-file
  limit L is positive. The trace of batchDownloadSync is the engine's init, then the
  traces of the groups of the specification one after the other (\<open>run_groups\<close>: the whole
  of groupBatchDownload for one group, from its preparation to the closing of its files,
  before the next group), then the final closure. The engine's batch call is made once
  for each group of the specification, with the units of that group: the number of calls is
  the ceiling of N / L, each call has at most L units, and the calls together cover the
  units once each, in order.
\<close>

theorem batch_grouping:
  assumes "distinct (map fst units)" and "0 < FOPEN_MAX e"
  shows "snd (batchDownloadSync e d self units batchId) =
           (case units of [] \<Rightarrow> [] | (k, u) # rest \<Rightarrow> [EngineInit (srcUrl u)])
           @ snd (run_groups e (d\<lparr>supportResuming := supportsResume e\<rparr>) self (spec_groups (FOPEN_MAX e) units))
           @ [PerformFunctionInCocosThread (BatchFinishedFn batchId)]
       \<and> map (map fst) (engine_batch_calls (snd (batchDownloadSync e d self units batchId)))
           = map (map fst) (spec_groups (FOPEN_MAX e) units)
       \<and> length (engine_batch_calls (snd (batchDownloadSync e d self units batchId)))
           = (length units + FOPEN_MAX e - 1) div FOPEN_MAX e
       \<and> (\<forall>g \<in> set (engine_batch_calls (snd (batchDownloadSync e d self units batchId))).
             g \<noteq> [] \<and> length g \<le> FOPEN_MAX e)
       \<and> concat (map (map fst) (engine_batch_calls (snd (batchDownloadSync e d self units batchId))))
           = map fst units"
proof -
  let ?calls = "engine_batch_calls (snd (batchDownloadSync e d self units batchId))"
  let ?groups = "spec_groups (FOPEN_MAX e) units"
  have tr: "snd (batchDownloadSync e d self units batchId) =
           (case units of [] \<Rightarrow> [] | (k, u) # rest \<Rightarrow> [EngineInit (srcUrl u)])
           @ snd (run_groups e (d\<lparr>supportResuming := supportsResume e\<rparr>) self ?groups)
           @ [PerformFunctionInCocosThread (BatchFinishedFn batchId)]"
    by (rule batchDownloadSync_groups[OF assms])
  have keys: "map (map fst) ?calls = map (map fst) ?groups"
    by (simp add: tr engine_batch_calls_append run_groups_engine_calls split: list.splits)
  from keys have "length ?calls = length ?groups"
    by (metis length_map)
  then have len: "length ?calls = (length units + FOPEN_MAX e - 1) div FOPEN_MAX e"
    by (simp add: spec_groups_length[OF assms(2)])
  have bound: "g \<noteq> [] \<and> length g \<le> FOPEN_MAX e" if "g \<in> set ?calls" for g
  proof -
    from that have "map fst g \<in> set (map (map fst) ?calls)" by simp
    then obtain g' where "g' \<in> set ?groups" and "map fst g' = map fst g"
      unfolding keys by auto
    with spec_groups_bound[of g' "FOPEN_MAX e" units] show ?thesis
      by (metis length_map list.map_disc_iff)
  qed
  have "concat (map (map fst) ?calls) = map fst (concat ?groups)"
    unfolding keys by (simp add: map_concat)
  then have cover: "concat (map (map fst) ?calls) = map fst units"
    by (simp add: spec_groups_concat[OF assms(2)])
  from tr keys len bound cover show ?thesis by blast
qed

theorem batch_grouping_witness:
  "distinct (map fst [(''A'', unit_a), (''B'', unit_b), (''C'', unit_c)]) \<and> 0 < FOPEN_MAX env_ok
   \<and> map (map fst) (engine_batch_calls (snd (batchDownloadSync env_ok downloader0 1
        [(''A'', unit_a), (''B'', unit_b), (''C'', unit_c)] ''batch1''))) = [[''A'', ''B''], [''C'']]
   \<and> length (engine_batch_calls (snd (batchDownloadSync env_ok downloader0 1
        [(''A'', unit_a), (''B'', unit_b), (''C'', unit_c)] ''batch1''))) = 2"
proof -
  have h1: "distinct (map fst [(''A'', unit_a), (''B'', unit_b), (''C'', unit_c)])" by simp
  have h2: "0 < FOPEN_MAX env_ok" by (simp add: env_ok_def)
  have g: "spec_groups (FOPEN_MAX env_ok) [(''A'', unit_a), (''B'', unit_b), (''C'', unit_c)]
             = [[(''A'', unit_a), (''B'', unit_b)], [(''C'', unit_c)]]"
    by (simp add: env_ok_def spec_groups.simps)
  from batch_grouping[OF h1 h2, of downloader0 1 "''batch1''", THEN conjunct2] h1 h2 show ?thesis
    by (simp add: g) (simp add: env_ok_def)
qed

subsection \<open>The completion of a group\<close>



subsection \<open>What happens to the temp file of a failed transfer\<close>








subsection \<open>When the temp file is renamed\<close>











text \<open>
  In a batch the test is not equality either: the tracker keeps the first total that the
  engine reports. With 5 of 10 bytes reported first and 15 of 20 later, the tracker holds
  15 against 10 when the engine stops, and the temp file is renamed.
\<close>

theorem batch_rename_beyond_total:
  "RenameFile ''/tmp/'' ''a.bin.temp'' ''a.bin''
     \<in> set (snd (groupBatchDownload env_redirect downloader0 1 [(''A'', unit_a)]))
   \<and> fst (snd (snd (group_transfer env_redirect downloader0 1 [(''A'', unit_a)])))
       = [\<lparr>customId = ''A'', url = ''http://x/a.bin'', path = ''/tmp/'', name = ''a.bin'',
           downloaded = 15, totalToDownload = 10\<rparr>]"
  by (simp add: groupBatchDownload_def group_transfer_def resize_def prepareDownload_def Let_def
        batchDownloadProgressFunc_def check_finished_def close_fps_def env_redirect_def
        downloader0_def unit_a_def ProgressData_new_def separators_def TEMP_EXT_def)

subsection \<open>How a batch signals completion\<close>

text \<open>
  C4, as the code has it. The trace of a batch ends with the scheduling of one closure for
  the whole batch, after everything the groups do, and schedules it at no other point; the
  cocos thread runs it as onSuccess with an empty url, an empty path and the batch id.
  Before it the batch has only the engine's init and the effects of its groups. The
  completion of one file is signalled from the progress callback: when the byte count
  changes and equals the reported total, the cocos thread gets the progress notification
  of that moment followed by onSuccess with the file's url, its path and its correlation
  id.
\<close>

theorem batch_completion_signal:
  "(\<exists>ef. snd (batchDownloadSync e d self units batchId)
            = ef @ [PerformFunctionInCocosThread (BatchFinishedFn batchId)]
         \<and> (\<forall>x \<in> set ef. (\<forall>b. x \<noteq> PerformFunctionInCocosThread (BatchFinishedFn b))
               \<and> ((\<exists>u. x = EngineInit u) \<or> prepare_effect self x \<or> callback_effect e x
                    \<or> accounting_effect x \<or> is_PerformBatchDownload x)))
   \<and> invocations (cocosThread e) d2 expired [PerformFunctionInCocosThread (BatchFinishedFn batchId)]
       = (if \<not> expired \<and> onSuccess d2 then [(cocosThread e, OnSuccess [] [] batchId)] else [])
   \<and> (downloaded p \<noteq> tot \<longrightarrow>
        invocations (cocosThread e) d False (snd (batchDownloadProgressFunc e d t p tot tot))
          = map (Pair (cocosThread e))
              ((if onProgress d then [OnProgress tot tot (url p) (customId p)] else [])
               @ (if onSuccess d then [OnSuccess (url p) (path p @ name p) (customId p)] else [])))"
proof -
  obtain ef where ef: "snd (batchDownloadSync e d self units batchId)
            = ef @ [PerformFunctionInCocosThread (BatchFinishedFn batchId)]"
    and src: "\<forall>x \<in> set ef. (\<exists>u. x = EngineInit u) \<or> (\<exists>d' g. x \<in> set (snd (groupBatchDownload e d' self g)))"
    using batchDownloadSync_last[of e d self units batchId] by blast
  have kinds: "(\<forall>b. x \<noteq> PerformFunctionInCocosThread (BatchFinishedFn b))
               \<and> ((\<exists>u. x = EngineInit u) \<or> prepare_effect self x \<or> callback_effect e x
                    \<or> accounting_effect x \<or> is_PerformBatchDownload x)"
    if "x \<in> set ef" for x
  proof -
    from src that consider (init) u where "x = EngineInit u"
      | (grp) d' g where "x \<in> set (snd (groupBatchDownload e d' self g))" by blast
    then show ?thesis
    proof cases
      case init
      then show ?thesis by simp
    next
      case grp
      from group_effects[OF grp] show ?thesis by auto
    qed
  qed
  have fin: "invocations (cocosThread e) d2 expired [PerformFunctionInCocosThread (BatchFinishedFn batchId)]
       = (if \<not> expired \<and> onSuccess d2 then [(cocosThread e, OnSuccess [] [] batchId)] else [])"
    by (simp add: invocations_def)
  have perfile: "downloaded p \<noteq> tot \<longrightarrow>
        invocations (cocosThread e) d False (snd (batchDownloadProgressFunc e d t p tot tot))
          = map (Pair (cocosThread e))
              ((if onProgress d then [OnProgress tot tot (url p) (customId p)] else [])
               @ (if onSuccess d then [OnSuccess (url p) (path p @ name p) (customId p)] else []))"
    by (simp add: invocations_def batchDownloadProgressFunc_def Let_def reportProgressFinished_def
          reportDownloadFinished_def)
  from ef kinds fin perfile show ?thesis by blast
qed

theorem batch_completion_signal_witness:
  "downloaded \<lparr>customId = ''A'', url = ''http://x/a.bin'', path = ''/tmp/'', name = ''a.bin'',
               downloaded = 0, totalToDownload = 0 :: nat\<rparr> \<noteq> 10
   \<and> invocations (cocosThread env_ok) downloader0 False
        (snd (batchDownloadProgressFunc env_ok downloader0 1
           \<lparr>customId = ''A'', url = ''http://x/a.bin'', path = ''/tmp/'', name = ''a.bin'',
            downloaded = 0, totalToDownload = 0\<rparr> 10 10))
      = [(0, OnProgress 10 10 ''http://x/a.bin'' ''A''), (0, OnSuccess ''http://x/a.bin'' ''/tmp/a.bin'' ''A'')]"
proof -
  have h: "downloaded \<lparr>customId = ''A'', url = ''http://x/a.bin'', path = ''/tmp/'', name = ''a.bin'',
               downloaded = 0, totalToDownload = 0 :: nat\<rparr> \<noteq> 10"
    by simp
  from batch_completion_signal[where e = env_ok and d = downloader0 and t = 1 and tot = 10
      and p = "\<lparr>customId = ''A'', url = ''http://x/a.bin'', path = ''/tmp/'', name = ''a.bin'',
                 downloaded = 0, totalToDownload = 0\<rparr>", THEN conjunct2, THEN conjunct2, THEN mp, OF h] h
  show ?thesis
    by (simp add: env_ok_def downloader0_def)
qed

text \<open>
  The claim as the specification states it fails on a batch of one unit whose transfer
  the engine reports complete: the success handler is called for the file itself, before
  the call for the batch.
\<close>

theorem batch_file_success:
  "invocations 0 downloader0 False (snd (batchDownloadSync env_ok downloader0 1 [(''A'', unit_a)] ''batch1''))
     = [(0, OnProgress 10 10 ''http://x/a.bin'' ''A''),
        (0, OnSuccess ''http://x/a.bin'' ''/tmp/a.bin'' ''A''),
        (0, OnSuccess [] [] ''batch1'')]"
  by (simp add: invocations_def batchDownloadSync_def groupBatchDownload_def group_transfer_def resize_def
        prepareDownload_def Let_def batchDownloadProgressFunc_def check_finished_def close_fps_def
        env_ok_def downloader0_def unit_a_def ProgressData_new_def separators_def TEMP_EXT_def
        reportProgressFinished_def reportDownloadFinished_def)

subsection \<open>The overflow guard of the buffer write callback\<close>

lemma sint_of_small:
  fixes x :: "'w::len word"
  assumes "unat x < 2 ^ (LENGTH('w) - 1)"
  shows "sint x = int (unat x)"
proof -
  have "uint x < 2 ^ (LENGTH('w) - 1)"
    using assms by (metis of_nat_less_iff of_nat_numeral of_nat_power uint_nat)
  moreover have "0 \<le> uint x" by simp
  moreover have "- (2 ^ (LENGTH('w) - 1)) \<le> (0::int)" by simp
  ultimately have "signed_take_bit (LENGTH('w) - 1) (uint x) = uint x"
    by (intro signed_take_bit_int_eq_self) linarith+
  then show ?thesis by (simp add: sint_uint)
qed

lemma half_plus_half:
  assumes "(a::nat) < 2 ^ (LENGTH('w::len) - 1)" and "b < 2 ^ (LENGTH('w) - 1)"
  shows "a + b < 2 ^ LENGTH('w)"
proof -
  have "(2::nat) ^ LENGTH('w) = 2 * 2 ^ (LENGTH('w) - 1)"
    by (metis len_gt_0 power_minus_mult mult.commute)
  with assms show ?thesis by simp
qed

lemma bufferWriteFunc_eq:
  fixes sb :: "'w::len word StreamData"
  assumes cap: "unat (sd_total sb) \<le> length (buffer sb)" "unat (sd_total sb) < 2 ^ (LENGTH('w) - 1)"
      and off: "unat (offset sb) \<le> unat (sd_total sb)"
      and chunk: "length ptr = unat sz * unat nmemb" "length ptr < 2 ^ (LENGTH('w) - 1)"
  shows "bufferWriteFunc ptr sz nmemb sb =
       (if unat (offset sb) + length ptr \<le> unat (sd_total sb)
        then Some (sb\<lparr>buffer := take (unat (offset sb)) (buffer sb) @ ptr
                                  @ drop (unat (offset sb) + length ptr) (buffer sb),
                       offset := offset sb + sz * nmemb\<rparr>, sz * nmemb)
        else Some (sb, 0))"
    and "unat (sz * nmemb) = length ptr"
    and "unat (offset sb + sz * nmemb) = unat (offset sb) + length ptr"
proof -
  let ?w = "sz * nmemb"
  have lt: "unat sz * unat nmemb < 2 ^ LENGTH('w)"
    using chunk half_plus_half[of "length ptr" 0, where 'w='w] by simp
  show w: "unat ?w = length ptr"
    using lt chunk(1) by (simp add: unat_mult_lem [THEN iffD1])
  have offlt: "unat (offset sb) < 2 ^ (LENGTH('w) - 1)" using off cap(2) by simp
  show sum: "unat (offset sb + ?w) = unat (offset sb) + length ptr"
    using half_plus_half[OF offlt chunk(2)] w by (simp add: unat_add_lem [THEN iffD1])
  have le: "(offset sb + ?w \<le> sd_total sb) = (unat (offset sb) + length ptr \<le> unat (sd_total sb))"
    by (simp add: word_le_nat_alt sum)
  have s: "sint (offset sb) = int (unat (offset sb))" by (rule sint_of_small[OF offlt])
  show "bufferWriteFunc ptr sz nmemb sb =
       (if unat (offset sb) + length ptr \<le> unat (sd_total sb)
        then Some (sb\<lparr>buffer := take (unat (offset sb)) (buffer sb) @ ptr
                                  @ drop (unat (offset sb) + length ptr) (buffer sb),
                       offset := offset sb + sz * nmemb\<rparr>, sz * nmemb)
        else Some (sb, 0))"
    using cap(1) by (auto simp: bufferWriteFunc_def Let_def le s memcpy_def w)
qed

text \<open>
  The guard of bufferWriteFunc on a StreamData that describes the buffer: its capacity is
  a non-negative long and no more than the array, its offset is within the capacity, and
  the engine hands over \<open>sz * nmemb\<close> bytes, fewer than the largest long. If the offset
  plus the byte count exceeds the capacity, the call copies nothing and returns 0.
  Otherwise it copies exactly the incoming bytes to the offset, advances the offset by the
  count and returns the count. In both cases the memcpy is defined and the array is
  unchanged from the capacity on. Without these conditions the unsigned sum or product of
  the guard can wrap.
\<close>

lemma bufferWriteFunc_guard:
  fixes sb :: "'w::len word StreamData"
  assumes "unat (sd_total sb) \<le> length (buffer sb)"
      and "unat (sd_total sb) < 2 ^ (LENGTH('w) - 1)"
      and "unat (offset sb) \<le> unat (sd_total sb)"
      and "length ptr = unat sz * unat nmemb"
      and "length ptr < 2 ^ (LENGTH('w) - 1)"
  shows "(unat (sd_total sb) < unat (offset sb) + length ptr \<longrightarrow>
            bufferWriteFunc ptr sz nmemb sb = Some (sb, 0))
       \<and> (unat (offset sb) + length ptr \<le> unat (sd_total sb) \<longrightarrow>
            (\<exists>sb' r. bufferWriteFunc ptr sz nmemb sb = Some (sb', r)
               \<and> unat r = length ptr
               \<and> buffer sb' = take (unat (offset sb)) (buffer sb) @ ptr
                                @ drop (unat (offset sb) + length ptr) (buffer sb)
               \<and> unat (offset sb') = unat (offset sb) + length ptr
               \<and> sd_total sb' = sd_total sb))
       \<and> (\<exists>sb' r. bufferWriteFunc ptr sz nmemb sb = Some (sb', r)
               \<and> length (buffer sb') = length (buffer sb)
               \<and> drop (unat (sd_total sb)) (buffer sb') = drop (unat (sd_total sb)) (buffer sb)
               \<and> unat (offset sb') \<le> unat (sd_total sb'))"
proof (cases "unat (offset sb) + length ptr \<le> unat (sd_total sb)")
  case True
  then show ?thesis
    using bufferWriteFunc_eq[OF assms] assms(1) by simp
next
  case False
  then show ?thesis
    using bufferWriteFunc_eq(1)[OF assms] assms(3) by simp
qed

lemma bufferWriteFunc_guard_example:
  "unat (offset \<lparr>buffer = [0, 0, 0, 0], sd_total = 4 :: 64 word, offset = 1\<rparr>) + length [7 :: byte, 8]
     \<le> unat (sd_total \<lparr>buffer = [0, 0, 0, 0], sd_total = 4 :: 64 word, offset = 1\<rparr>)
   \<and> (\<exists>sb' r. bufferWriteFunc [7, 8] (1 :: 64 word) 2 \<lparr>buffer = [0, 0, 0, 0], sd_total = 4, offset = 1\<rparr>
                  = Some (sb', r)
          \<and> unat r = 2 \<and> buffer sb' = [0, 7, 8, 0] \<and> unat (offset sb') = 3 \<and> sd_total sb' = 4)
   \<and> bufferWriteFunc [7, 8] (1 :: 64 word) 2 \<lparr>buffer = [0, 0, 0, 0], sd_total = 4, offset = 3\<rparr>
       = Some (\<lparr>buffer = [0, 0, 0, 0], sd_total = 4, offset = 3\<rparr>, 0)"
proof -
  let ?fits = "\<lparr>buffer = [0, 0, 0, 0], sd_total = 4 :: 64 word, offset = 1\<rparr>"
  let ?full = "\<lparr>buffer = [0, 0, 0, 0], sd_total = 4 :: 64 word, offset = 3\<rparr>"
  have cap: "unat (sd_total ?fits) \<le> length (buffer ?fits)" "unat (sd_total ?full) \<le> length (buffer ?full)"
    by simp_all
  have long: "unat (sd_total ?fits) < 2 ^ (LENGTH(64) - 1)" "unat (sd_total ?full) < 2 ^ (LENGTH(64) - 1)"
    by simp_all
  have off: "unat (offset ?fits) \<le> unat (sd_total ?fits)" "unat (offset ?full) \<le> unat (sd_total ?full)"
    by simp_all
  have chunk: "length [7 :: byte, 8] = unat (1 :: 64 word) * unat (2 :: 64 word)"
    by simp
  have small: "length [7 :: byte, 8] < 2 ^ (LENGTH(64) - 1)"
    by simp
  have fits: "unat (offset ?fits) + length [7 :: byte, 8] \<le> unat (sd_total ?fits)"
    by simp
  have over: "unat (sd_total ?full) < unat (offset ?full) + length [7 :: byte, 8]"
    by simp
  from bufferWriteFunc_guard[OF cap(1) long(1) off(1) chunk small, THEN conjunct2, THEN conjunct1, THEN mp, OF fits]
  obtain sb' r where "bufferWriteFunc [7, 8] 1 2 ?fits = Some (sb', r)" and "unat r = 2"
    and "buffer sb' = [0, 7, 8, 0]" and "unat (offset sb') = 3" and "sd_total sb' = 4"
    by auto
  then have copied: "\<exists>sb' r. bufferWriteFunc [7, 8] 1 2 ?fits = Some (sb', r)
          \<and> unat r = 2 \<and> buffer sb' = [0, 7, 8, 0] \<and> unat (offset sb') = 3 \<and> sd_total sb' = 4"
    by blast
  from bufferWriteFunc_guard[OF cap(2) long(2) off(2) chunk small, THEN conjunct1, THEN mp, OF over]
  have refused: "bufferWriteFunc [7, 8] 1 2 ?full = Some (?full, 0)" .
  from fits copied refused show ?thesis by blast
qed

text \<open>
  A declared size that is negative passes the guard as a large unsigned number: three
  bytes for an array of two are copied past its end, which is undefined.
\<close>

lemma bufferWriteFunc_negative_capacity:
  "bufferWriteFunc [1, 2, 3] (1 :: 64 word) 3 \<lparr>buffer = [0, 0], sd_total = - 1, offset = 0\<rparr> = None"
  by (simp add: bufferWriteFunc_def memcpy_def)

text \<open>
  C5 on the transfers that the code makes. downloadToBuffer stores the caller's buffer
  itself in the unit's fp, and bufferWriteFunc casts the unit's fp to a StreamData*: the
  StreamData that holds the declared size is never handed to the callback, so the guard
  does not compare with the declared size but with what it reads in the buffer. Nothing
  that a buffer transfer does depends on the declared size. With a declared size of 2 and
  an engine that delivers 3 bytes and returns 0, bufferWriteFunc is called with the 3
  bytes on the unit whose fp is the buffer, and the transfer reports success.
\<close>

theorem declared_size_not_used:
  "downloadToBufferSync e d self src buf sz customid = downloadToBufferSync e d self src buf sz2 customid
   \<and> downloadToBufferAsync e d t src buf sz customid = downloadToBufferAsync e d t src buf sz2 customid
   \<and> snd (downloadToBufferSync env_ok downloader0 0 ''http://x/a.bin'' (Some 4096) 2 ''id1'')
       = [EngineInit ''http://x/a.bin'',
          PerformDownload \<lparr>srcUrl = ''http://x/a.bin'', storagePath = [], unit_customId = ''id1'',
                           resumeDownload = False, fp = Some 4096\<rparr>,
          BufferWrite (Some 4096) [1, 2, 3],
          PerformFunctionInCocosThread (ProgressFn 0 3
            \<lparr>customId = ''id1'', url = ''http://x/a.bin'', path = [], name = [],
             downloaded = 3, totalToDownload = 0\<rparr>),
          Invoke 0 (OnSuccess ''http://x/a.bin'' [] ''id1'')]"
  by (simp add: downloadToBufferSync_def downloadToBufferAsync_def downloadToBuffer_def
        buffer_transfer_def Let_def downloadProgressFunc_def reportDownloadFinished_def
        env_ok_def downloader0_def ProgressData_new_def)

subsection \<open>The thread of the handlers\<close>

lemma invocations_mem:
  "(t, cb) \<in> set (invocations cocos d expired ef) \<Longrightarrow> t = cocos \<or> Invoke t cb \<in> set ef"
  by (auto simp: invocations_set dest: inline_calls_mem)

lemma prepare_effect_invoke:
  "prepare_effect self (Invoke t cb) \<Longrightarrow>
     t = self \<and> (\<exists>err. cb = OnError err \<and> (code err = INVALID_URL \<or> code err = CREATE_FILE))"
  by (cases cb) simp_all

lemma callback_effect_invoke: "callback_effect e (Invoke t cb) \<Longrightarrow> t = cocosThread e"
  by (cases cb) simp_all

text \<open>
  Where the handlers run. Every handler call of a single file transfer, of a buffer
  transfer and of a batch runs on the cocos thread, except the INVALID_URL and CREATE_FILE
  errors of prepareDownload: these run on the thread that prepares the destination.
\<close>

lemma file_transfer_threads:
  assumes "(t, cb) \<in> set (invocations (cocosThread e) d2 expired (snd (downloadToFP e d self src customid storage)))"
  shows "t = cocosThread e
       \<or> (t = self \<and> (\<exists>err. cb = OnError err \<and> (code err = INVALID_URL \<or> code err = CREATE_FILE)))"
proof -
  obtain prep unit cbs data res
    where ft: "file_transfer e d self src customid storage = (prep, unit, cbs, data, res)"
    by (metis prod_cases5)
  from invocations_mem[OF assms] show ?thesis
  proof
    assume "Invoke t cb \<in> set (snd (downloadToFP e d self src customid storage))"
    then have "Invoke t cb \<in> set prep \<or> Invoke t cb \<in> set cbs \<or> t = cocosThread e"
      by (auto simp: downloadToFP_trace[OF ft] notifyError_easy_def notifyError_def split: if_splits)
    then show ?thesis
      using file_transfer_props(1)[OF ft] prepare_effects[of "Invoke t cb" e d self src storage customid False]
        prepare_effect_invoke[of self t cb] file_transfer_callbacks[OF ft, of "Invoke t cb"]
      by auto
  qed simp
qed

lemma buffer_transfer_threads:
  assumes "(t, cb) \<in> set (invocations (cocosThread e) d2 expired (snd (downloadToBuffer e d self src customid buf sz)))"
  shows "t = cocosThread e"
proof -
  obtain unit cbs data res
    where bt: "buffer_transfer e src customid buf sz = (unit, cbs, data, res)"
    by (metis prod_cases4)
  from invocations_mem[OF assms] show ?thesis
  proof
    assume "Invoke t cb \<in> set (snd (downloadToBuffer e d self src customid buf sz))"
    then have "Invoke t cb \<in> set cbs \<or> t = cocosThread e"
      by (auto simp: downloadToBuffer_trace[OF bt] notifyError_easy_def notifyError_def split: if_splits)
    then show ?thesis
      using buffer_transfer_callbacks[OF bt, of "Invoke t cb"] by auto
  qed simp
qed

lemma batch_threads:
  assumes "(t, cb) \<in> set (invocations (cocosThread e) d2 expired (snd (batchDownloadSync e d self units batchId)))"
  shows "t = cocosThread e
       \<or> (t = self \<and> (\<exists>err. cb = OnError err \<and> (code err = INVALID_URL \<or> code err = CREATE_FILE)))"
proof -
  from invocations_mem[OF assms] show ?thesis
  proof
    assume inv: "Invoke t cb \<in> set (snd (batchDownloadSync e d self units batchId))"
    have "prepare_effect self (Invoke t cb) \<or> callback_effect e (Invoke t cb)"
      by (rule batchDownloadSync_all[where P = "\<lambda>x. x = Invoke t cb \<longrightarrow>
              prepare_effect self x \<or> callback_effect e x", OF _ _ _ inv, THEN mp])
         (auto dest: group_effects)
    then show ?thesis
      using prepare_effect_invoke[of self t cb] callback_effect_invoke[of e t cb] by auto
  qed simp
qed

text \<open>
  C1 at a storage path without a separator: downloadAsync starts thread 1, the cocos
  thread is thread 0. prepareDownload calls the error handler itself, so the INVALID_URL
  error runs on thread 1; the engine's error, which goes through notifyError, is for the
  cocos thread.
\<close>

theorem preparation_error_on_worker_thread:
  "cocosThread env_unreachable = 0
   \<and> invocations 0 downloader0 False
        (snd (downloadAsync env_unreachable downloader0 1 ''http://x/a.bin'' ''a.bin'' ''id1''))
      = [(1, OnError \<lparr>code = INVALID_URL, curle_code = None, curlm_code = None,
                      message = ''Invalid url or filename not exist error: http://x/a.bin'',
                      err_customId = ''id1''\<rparr>),
         (0, OnError \<lparr>code = CURL_EASY_ERROR, curle_code = Some 6, curlm_code = Some 0,
                      message = ''Unable to download file: [curl error]Could not resolve host'',
                      err_customId = ''id1''\<rparr>)]"
  by (simp add: invocations_def downloadAsync_def downloadToFP_def file_transfer_def prepareDownload_def
        Let_def env_unreachable_def downloader0_def ProgressData_new_def separators_def TEMP_EXT_def
        notifyError_easy_def notifyError_def CURLM_OK_def)

subsection \<open>A single transfer that the engine fails\<close>

lemma prepare_no_invoke:
  "fst (snd (prepareDownload e d self src storage customid resume p)) \<noteq> None \<Longrightarrow>
   inline_calls (fst (prepareDownload e d self src storage customid resume p)) = []"
  by (auto simp: prepareDownload_def Let_def split: option.splits)

lemma prepare_no_queue:
  "queued (fst (prepareDownload e d self src storage customid resume p)) = []"
  by (auto simp: prepareDownload_def Let_def split: option.splits)

text \<open>
  When the engine returns a non-zero code, a buffer transfer calls the error handler
  once, with the engine's message and code, and never the success handler. So does a file
  transfer whose preparation has opened the temp file.
\<close>

lemma buffer_failure_reported_once:
  assumes "buffer_transfer e src customid buf sz = (unit, cbs, data, res)"
      and "res \<noteq> 0"
  shows "invocations (cocosThread e) d2 expired (snd (downloadToBuffer e d self src customid buf sz))
          = invocations (cocosThread e) d2 expired cbs
            @ (if \<not> expired \<and> onError d2
               then [(cocosThread e, OnError
                      \<lparr>code = CURL_EASY_ERROR, curle_code = Some res, curlm_code = Some 0,
                       message = ''Unable to download file to buffer: [curl error]'' @ getStrError e,
                       err_customId = customid\<rparr>)]
               else [])"
    and "\<forall>i \<in> set (invocations (cocosThread e) d2 expired cbs). \<not> is_OnError (snd i) \<and> \<not> is_OnSuccess (snd i)"
proof -
  have "inline_calls cbs = []"
    by (rule progress_only(1)) (use buffer_transfer_callbacks[OF assms(1)] in blast)
  then show "invocations (cocosThread e) d2 expired (snd (downloadToBuffer e d self src customid buf sz))
          = invocations (cocosThread e) d2 expired cbs
            @ (if \<not> expired \<and> onError d2
               then [(cocosThread e, OnError
                      \<lparr>code = CURL_EASY_ERROR, curle_code = Some res, curlm_code = Some 0,
                       message = ''Unable to download file to buffer: [curl error]'' @ getStrError e,
                       err_customId = customid\<rparr>)]
               else [])"
    using assms(2)
    by (simp add: downloadToBuffer_trace[OF assms(1)] invocations_def inline_calls_append queued_append
          notifyError_easy_def notifyError_def CURLM_OK_def)
  show "\<forall>i \<in> set (invocations (cocosThread e) d2 expired cbs). \<not> is_OnError (snd i) \<and> \<not> is_OnSuccess (snd i)"
    using invocations_progress_only[of cbs "cocosThread e" d2 expired]
      buffer_transfer_callbacks[OF assms(1)] by blast
qed

lemma file_failure_reported_once:
  assumes "file_transfer e d self src customid storage = (prep, unit, cbs, data, res)"
      and "res \<noteq> 0"
      and "fp unit \<noteq> None"
  shows "invocations (cocosThread e) d2 expired (snd (downloadToFP e d self src customid storage))
          = invocations (cocosThread e) d2 expired cbs
            @ (if \<not> expired \<and> onError d2
               then [(cocosThread e, OnError
                      \<lparr>code = CURL_EASY_ERROR, curle_code = Some res, curlm_code = Some 0,
                       message = ''Unable to download file: [curl error]'' @ getStrError e,
                       err_customId = customid\<rparr>)]
               else [])"
    and "\<forall>i \<in> set (invocations (cocosThread e) d2 expired cbs). \<not> is_OnError (snd i) \<and> \<not> is_OnSuccess (snd i)"
    and "defined_run (snd (downloadToFP e d self src customid storage)) = snd (downloadToFP e d self src customid storage)"
proof -
  have p1: "inline_calls prep = []"
    using file_transfer_props(1,2)[OF assms(1)] assms(3)
      prepare_no_invoke[of e d self src storage customid False ProgressData_new]
    by simp
  have p2: "queued prep = []"
    using file_transfer_props(1)[OF assms(1)] prepare_no_queue by metis
  have c1: "inline_calls cbs = []"
    by (rule progress_only(1)) (use file_transfer_callbacks[OF assms(1)] in blast)
  show "invocations (cocosThread e) d2 expired (snd (downloadToFP e d self src customid storage))
          = invocations (cocosThread e) d2 expired cbs
            @ (if \<not> expired \<and> onError d2
               then [(cocosThread e, OnError
                      \<lparr>code = CURL_EASY_ERROR, curle_code = Some res, curlm_code = Some 0,
                       message = ''Unable to download file: [curl error]'' @ getStrError e,
                       err_customId = customid\<rparr>)]
               else [])"
    using assms(2,3) p1 p2 c1
    by (simp add: downloadToFP_trace[OF assms(1)] invocations_def inline_calls_append queued_append
          notifyError_easy_def notifyError_def CURLM_OK_def)
  show "\<forall>i \<in> set (invocations (cocosThread e) d2 expired cbs). \<not> is_OnError (snd i) \<and> \<not> is_OnSuccess (snd i)"
    using invocations_progress_only[of cbs "cocosThread e" d2 expired]
      file_transfer_callbacks[OF assms(1)] by blast
  show "defined_run (snd (downloadToFP e d self src customid storage)) = snd (downloadToFP e d self src customid storage)"
  proof (rule defined_run_all)
    fix x
    assume "x \<in> set (snd (downloadToFP e d self src customid storage))"
    then consider "x \<in> set prep" | "x \<in> set cbs" | "\<not> undefined_call x"
      using assms(2,3)
      by (auto simp: downloadToFP_trace[OF assms(1)] notifyError_easy_def notifyError_def)
    then show "\<not> undefined_call x"
    proof cases
      case 1
      then have "prepare_effect self x"
        using file_transfer_props(1)[OF assms(1)] prepare_effects by metis
      then show ?thesis by (rule prepare_effect_defined)
    next
      case 2
      from file_transfer_callbacks[OF assms(1) this] assms(3) show ?thesis by auto
    qed
  qed
qed

text \<open>
  After a failed preparation the file pointer is null and downloadToFP reaches fclose with
  it, whatever the engine returns: the run ends in an undefined call, the fclose or a write
  before it.
\<close>

lemma null_pointer_undefined:
  assumes "file_transfer e d self src customid storage = (prep, unit, cbs, data, res)"
      and "fp unit = None"
  shows "\<exists>pre. snd (downloadToFP e d self src customid storage) = pre @ [Fclose None]"
    and "\<exists>pre y. defined_run (snd (downloadToFP e d self src customid storage)) = pre @ [y] \<and> undefined_call y
           \<and> (\<forall>z \<in> set pre. \<not> undefined_call z)"
proof -
  show last: "\<exists>pre. snd (downloadToFP e d self src customid storage) = pre @ [Fclose None]"
    using assms(2) by (simp add: downloadToFP_trace[OF assms(1)])
  then have "Fclose None \<in> set (snd (downloadToFP e d self src customid storage))" by auto
  from defined_run_stops[OF this]
  show "\<exists>pre y. defined_run (snd (downloadToFP e d self src customid storage)) = pre @ [y] \<and> undefined_call y
           \<and> (\<forall>z \<in> set pre. \<not> undefined_call z)"
    by simp
qed

text \<open>
  C7 at a storage path without a separator, on the cocos thread (thread 0), with an engine
  that cannot resolve the host. prepareDownload calls the error handler with INVALID_URL
  and leaves the file pointer null. downloadToFP does not test the pointer: it calls
  performDownload, which returns 6, removes the file \<open>.temp\<close> (the tracker has neither
  directory nor name), queues the engine's error for the cocos thread and calls fclose on
  the null pointer. That call is undefined and the run ends with it, on the very thread
  that would run the queue. The one call of the error handler that the run has made
  carries INVALID_URL and no native code; the report with the engine's message and code
  is still in the queue.
\<close>

theorem failed_preparation_reaches_null_fclose:
  "cocosThread env_unreachable = 0
   \<and> snd (downloadSync env_unreachable downloader0 0 ''http://x/a.bin'' ''a.bin'' ''id1'')
     = [Invoke 0 (OnError \<lparr>code = INVALID_URL, curle_code = None, curlm_code = None,
                           message = ''Invalid url or filename not exist error: http://x/a.bin'',
                           err_customId = ''id1''\<rparr>),
        EngineInit ''http://x/a.bin'',
        PerformDownload \<lparr>srcUrl = ''http://x/a.bin'', storagePath = ''a.bin'', unit_customId = ''id1'',
                         resumeDownload = False, fp = None\<rparr>,
        RemoveFile ''.temp'',
        PerformFunctionInCocosThread (NotifyErrorFn
          \<lparr>code = CURL_EASY_ERROR, curle_code = Some 6, curlm_code = Some 0,
           message = ''Unable to download file: [curl error]Could not resolve host'',
           err_customId = ''id1''\<rparr>),
        Fclose None]
   \<and> undefined_call (last (defined_run
        (snd (downloadSync env_unreachable downloader0 0 ''http://x/a.bin'' ''a.bin'' ''id1''))))
   \<and> inline_calls (defined_run
        (snd (downloadSync env_unreachable downloader0 0 ''http://x/a.bin'' ''a.bin'' ''id1'')))
     = [(0, OnError \<lparr>code = INVALID_URL, curle_code = None, curlm_code = None,
                      message = ''Invalid url or filename not exist error: http://x/a.bin'',
                      err_customId = ''id1''\<rparr>)]"
  by (simp add: downloadSync_def downloadToFP_def file_transfer_def prepareDownload_def Let_def
        env_unreachable_def downloader0_def ProgressData_new_def separators_def TEMP_EXT_def
        notifyError_easy_def notifyError_def CURLM_OK_def)

subsection \<open>Null buffers\<close>

text \<open>
  C10: downloadToBufferAsync and downloadToBufferSync with a null buffer do nothing: the
  downloader is returned as it was and the trace is empty, so no thread is spawned, the
  engine is not called and no handler is invoked.
\<close>

theorem null_buffer_is_noop:
  "downloadToBufferAsync e d t src None sz customid = (d, [])
   \<and> downloadToBufferSync e d self src None sz customid = (d, [])"
  by (simp add: downloadToBufferAsync_def downloadToBufferSync_def)

end
